theory Spec2Isabelle
  imports Complex_Main
begin

section \<open>Python values, errors and string helpers\<close>

text \<open>
  The module \<open>i3/mixer.py\<close> is a py3status widget.  Exceptions are values of the type
  \<open>error\<close>; a command argument is a Python \<open>str\<close> or \<open>int\<close> (the backend's
  \<open>device\<close> attribute is a string once the backend is initialised and an integer after
  \<open>swap_device\<close>).
\<close>

datatype error =
    CommandError
  | ValueError
  | TypeError
  | IndexError
  | KeyError string
  | RuntimeError
  | ZeroDivisionError
  | Exception string

datatype pyval = PStr string | PInt int

type_synonym argv = "pyval list"

text \<open>Characters for which \<open>str.isspace\<close> holds, among the first 256 code points.\<close>

definition whitespace :: "char list" where
  "whitespace = [CHR 0x09, CHR 0x0A, CHR 0x0B, CHR 0x0C, CHR 0x0D,
                 CHR 0x1C, CHR 0x1D, CHR 0x1E, CHR 0x1F, CHR 0x20, CHR 0x85, CHR 0xA0]"

definition py_isspace :: "char \<Rightarrow> bool" where
  "py_isspace c = (c \<in> set whitespace)"

text \<open>\<open>s.strip()\<close>\<close>

definition py_strip :: "string \<Rightarrow> string" where
  "py_strip s = rev (dropWhile py_isspace (rev (dropWhile py_isspace s)))"

text \<open>\<open>s.split()\<close>: maximal runs of non-whitespace characters.\<close>

fun py_split_acc :: "string \<Rightarrow> string \<Rightarrow> string list" where
  "py_split_acc cur [] = (if cur = [] then [] else [cur])"
| "py_split_acc cur (c # cs) =
     (if py_isspace c
      then (if cur = [] then py_split_acc [] cs else cur # py_split_acc [] cs)
      else py_split_acc (cur @ [c]) cs)"

definition py_split :: "string \<Rightarrow> string list" where
  "py_split s = py_split_acc [] s"

text \<open>\<open>s.split(sep)\<close> for a one-character separator: never empty, keeps empty fields.\<close>

fun split_on_acc :: "char \<Rightarrow> string \<Rightarrow> string \<Rightarrow> string list" where
  "split_on_acc sep cur [] = [cur]"
| "split_on_acc sep cur (c # cs) =
     (if c = sep then cur # split_on_acc sep [] cs else split_on_acc sep (cur @ [c]) cs)"

definition split_on :: "char \<Rightarrow> string \<Rightarrow> string list" where
  "split_on sep s = split_on_acc sep [] s"

text \<open>
  \<open>s.splitlines()\<close>: a line ends at \<open>\n\<close>, \<open>\r\<close>, \<open>\r\n\<close>, \<open>\v\<close>, \<open>\f\<close>,
  \<open>\x1c\<close>, \<open>\x1d\<close>, \<open>\x1e\<close> or \<open>\x85\<close>; there is no empty last line.
\<close>

definition linebreaks :: "char list" where
  "linebreaks = [CHR 0x0A, CHR 0x0B, CHR 0x0C, CHR 0x1C, CHR 0x1D, CHR 0x1E, CHR 0x85]"

fun splitlines_acc :: "string \<Rightarrow> string \<Rightarrow> string list" where
  "splitlines_acc cur [] = (if cur = [] then [] else [cur])"
| "splitlines_acc cur (c # cs) =
     (if c = CHR 0x0D then
        (case cs of
           [] \<Rightarrow> [cur]
         | d # ds \<Rightarrow> if d = CHR 0x0A then cur # splitlines_acc [] ds
                     else cur # splitlines_acc [] cs)
      else if c \<in> set linebreaks then cur # splitlines_acc [] cs
      else splitlines_acc (cur @ [c]) cs)"

definition py_splitlines :: "string \<Rightarrow> string list" where
  "py_splitlines s = splitlines_acc [] s"

text \<open>
  The subscript \<open>xs[i]\<close>: positions \<open>0 .. len - 1\<close> from the front,
  \<open>-len .. -1\<close> from the back, \<open>IndexError\<close> elsewhere.
\<close>

definition py_index :: "'a list \<Rightarrow> int \<Rightarrow> error + 'a" where
  "py_index xs i =
     (if 0 \<le> i \<and> i < int (length xs) then Inr (xs ! nat i)
      else if - int (length xs) \<le> i \<and> i < 0 then Inr (xs ! nat (int (length xs) + i))
      else Inl IndexError)"

text \<open>Python's \<open>a % b\<close> on integers: the result has the sign of \<open>b\<close>, as in HOL.\<close>

definition py_mod :: "int \<Rightarrow> int \<Rightarrow> error + int" where
  "py_mod a b = (if b = 0 then Inl ZeroDivisionError else Inr (a mod b))"

text \<open>\<open>str(i)\<close> for an integer, and \<open>str\<close> of a command argument.\<close>

definition digit_char :: "nat \<Rightarrow> char" where
  "digit_char d = ''0123456789'' ! d"

fun str_nat :: "nat \<Rightarrow> string" where
  "str_nat n = (if n < 10 then [digit_char n] else str_nat (n div 10) @ [digit_char (n mod 10)])"

declare str_nat.simps [simp del]

definition str_int :: "int \<Rightarrow> string" where
  "str_int i = (if i < 0 then CHR ''-'' # str_nat (nat (- i)) else str_nat (nat i))"

fun py_str :: "pyval \<Rightarrow> string" where
  "py_str (PStr s) = s"
| "py_str (PInt i) = str_int i"

text \<open>
  \<open>int(s)\<close> on a string of decimal digits, the only strings that reach it: the
  second group of the volume pattern is \<open>\d{1,3}\<close>.  Any other string is reported
  as \<open>ValueError\<close>.
\<close>

definition is_digit :: "char \<Rightarrow> bool" where
  "is_digit c = (c \<in> set ''0123456789'')"

definition digit_val :: "char \<Rightarrow> int" where
  "digit_val c = int (of_char c) - 48"

definition int_of_digits :: "string \<Rightarrow> int" where
  "int_of_digits s = foldl (\<lambda>acc c. 10 * acc + digit_val c) 0 s"

definition py_int :: "string \<Rightarrow> error + int" where
  "py_int s = (if s \<noteq> [] \<and> list_all is_digit s then Inr (int_of_digits s) else Inl ValueError)"

text \<open>\<open>s[0].upper() + s[1:]\<close> and \<open>s.capitalize()\<close> on ASCII letters.\<close>

definition lower_letters :: string where
  "lower_letters = ''abcdefghijklmnopqrstuvwxyz''"

definition upper_letters :: string where
  "upper_letters = ''ABCDEFGHIJKLMNOPQRSTUVWXYZ''"

definition py_upper :: "char \<Rightarrow> char" where
  "py_upper c = (case map_of (zip lower_letters upper_letters) c of Some u \<Rightarrow> u | None \<Rightarrow> c)"

definition py_lower :: "char \<Rightarrow> char" where
  "py_lower c = (case map_of (zip upper_letters lower_letters) c of Some l \<Rightarrow> l | None \<Rightarrow> c)"

definition capitalize :: "string \<Rightarrow> string" where
  "capitalize s = (case s of [] \<Rightarrow> [] | c # cs \<Rightarrow> py_upper c # map py_lower cs)"

section \<open>The environment: py3status helpers and the regular-expression engine\<close>

text \<open>
  What the module reaches through \<open>self.py3\<close> and \<open>re\<close> is a parameter of the model:
  \<^item> \<open>installed\<close>: whether an executable is found (\<open>py3.check_commands\<close> asks for it);
  \<^item> \<open>py3_command_output\<close>: the captured output of a command, or \<open>CommandError\<close>;
  \<^item> \<open>py3_command_run\<close>: running a command, \<open>None\<close> when it does not raise;
  \<^item> \<open>re_search\<close>: \<open>re.compile(pattern, re.M | re.DOTALL).search(text)\<close> for the
    two-group volume pattern: the groups of the first match, or \<open>None\<close>;
  \<^item> \<open>COLOR_MUTED\<close>, \<open>COLOR_BAD\<close>: the configured colours.
\<close>

record world =
  installed :: "string \<Rightarrow> bool"
  py3_command_output :: "string list \<Rightarrow> error + string"
  py3_command_run :: "argv \<Rightarrow> error option"
  re_search :: "string \<Rightarrow> string \<Rightarrow> (string \<times> string) option"
  COLOR_MUTED :: "string option"
  COLOR_BAD :: "string option"

text \<open>\<open>py3.check_commands\<close>: the first command of the list that is installed.\<close>

definition check_commands :: "world \<Rightarrow> string list \<Rightarrow> string option" where
  "check_commands w cmd_list = find (installed w) cmd_list"

text \<open>Truthiness of an optional string and of an optional boolean.\<close>

definition truthy_str :: "string option \<Rightarrow> bool" where
  "truthy_str v = (case v of None \<Rightarrow> False | Some s \<Rightarrow> s \<noteq> [])"

definition truthy_bool :: "bool option \<Rightarrow> bool" where
  "truthy_bool v = (case v of None \<Rightarrow> False | Some b \<Rightarrow> b)"

section \<open>class Pactl(Audio)\<close>

record pactl =
  device :: pyval
  is_input :: bool
  max_volume :: int
  device_type :: string
  device_type_pl :: string
  device_type_cap :: string
  re_volume :: string

text \<open>\<open>Audio.run_cmd\<close>; the commands run are appended to a log.\<close>

definition run_cmd :: "world \<Rightarrow> argv \<Rightarrow> argv list \<Rightarrow> error option \<times> argv list" where
  "run_cmd w cmd cmds = (py3_command_run w cmd, cmds @ [cmd])"

text \<open>\<open>Pactl.update_device\<close>: the source text of the volume pattern.\<close>

definition bs :: string where
  "bs = [CHR 0x5C]"

definition update_device :: "pactl \<Rightarrow> pactl" where
  "update_device self =
     self\<lparr>re_volume :=
       device_type_cap self @ '' (?:'' @ bs @ ''#'' @ py_str (device self)
         @ ''|.*?Name: '' @ py_str (device self)
         @ '').*?Mute: ('' @ bs @ ''w{2,3}).*?Volume:.*?('' @ bs @ ''d{1,3})'' @ bs @ ''%''\<rparr>"

definition set_default_device :: "world \<Rightarrow> pactl \<Rightarrow> argv list \<Rightarrow> error option \<times> argv list" where
  "set_default_device w self cmds =
     run_cmd w [PStr ''pactl'', PStr (''set-default-'' @ device_type self),
                PStr (py_str (device self))] cmds"

fun find_device_line :: "string \<Rightarrow> string list \<Rightarrow> string option" where
  "find_device_line device_id [] = None"
| "find_device_line device_id (line # lines) =
     (let parts = py_split line
      in if length parts < 2 then find_device_line device_id lines
         else if parts ! 1 = device_id then Some (parts ! 0)
         else find_device_line device_id lines)"

definition get_device_index :: "world \<Rightarrow> pactl \<Rightarrow> string option \<Rightarrow> error + string" where
  "get_device_index w self device_id =
     (case device_id of
        None \<Rightarrow> Inl RuntimeError
      | Some d \<Rightarrow>
          (case py3_command_output w [''pactl'', ''list'', ''short'', device_type_pl self] of
             Inl e \<Rightarrow> Inl e
           | Inr output \<Rightarrow>
               (case find_device_line d (py_splitlines output) of
                  Some i \<Rightarrow> Inr i
                | None \<Rightarrow> Inl RuntimeError)))"

text \<open>
  The pattern \<open>^Default <Type>: (.*)$\<close> matched at the start of a line: the line begins
  with the prefix, and the rest has no line feed other than a last one.
\<close>

definition default_dev_match :: "string \<Rightarrow> string \<Rightarrow> string option" where
  "default_dev_match cap info_line =
     (let pre = ''Default '' @ cap @ '': ''; rest = drop (length pre) info_line
      in if take (length pre) info_line \<noteq> pre then None
         else if CHR 0x0A \<notin> set rest then Some rest
         else if last rest = CHR 0x0A \<and> CHR 0x0A \<notin> set (butlast rest) then Some (butlast rest)
         else None)"

fun first_default_dev :: "string \<Rightarrow> string list \<Rightarrow> string option" where
  "first_default_dev cap [] = None"
| "first_default_dev cap (info_line # ls) =
     (case default_dev_match cap info_line of
        Some d \<Rightarrow> Some d
      | None \<Rightarrow> first_default_dev cap ls)"

text \<open>
  \<open>Pactl.get_default_device(name)\<close>: the default device's name (\<open>None\<close> when no line
  of \<open>pactl info\<close> matches) when \<open>name\<close> is true, its index otherwise.
\<close>

definition get_default_device :: "world \<Rightarrow> pactl \<Rightarrow> bool \<Rightarrow> error + string option" where
  "get_default_device w self name =
     (case py3_command_output w [''pactl'', ''info''] of
        Inl e \<Rightarrow> Inl e
      | Inr output \<Rightarrow>
          (let device_id = first_default_dev (device_type_cap self) (py_splitlines output)
           in if name then Inr device_id
              else (case get_device_index w self device_id of
                      Inl e \<Rightarrow> Inl e
                    | Inr i \<Rightarrow> Inr (Some i))))"

fun first_tokens :: "string list \<Rightarrow> error + string list" where
  "first_tokens [] = Inr []"
| "first_tokens (line # lines) =
     (case py_index (py_split line) 0 of
        Inl e \<Rightarrow> Inl e
      | Inr t \<Rightarrow> (case first_tokens lines of Inl e \<Rightarrow> Inl e | Inr ts \<Rightarrow> Inr (t # ts)))"

definition get_sink_inputs :: "world \<Rightarrow> error + string list" where
  "get_sink_inputs w =
     (case py3_command_output w [''pactl'', ''list'', ''short'', ''sink-inputs''] of
        Inl e \<Rightarrow> Inl e
      | Inr cmd_out \<Rightarrow> first_tokens (butlast (split_on (CHR 0x0A) cmd_out)))"

fun move_sink_inputs :: "world \<Rightarrow> pactl \<Rightarrow> string list \<Rightarrow> argv list \<Rightarrow> error option \<times> argv list" where
  "move_sink_inputs w self [] cmds = (None, cmds)"
| "move_sink_inputs w self (sink_input # rest) cmds =
     (case run_cmd w [PStr ''pactl'', PStr ''move-sink-input'', PStr sink_input,
                      PStr (py_str (device self))] cmds of
        (Some e, cmds') \<Rightarrow> (Some e, cmds')
      | (None, cmds') \<Rightarrow> move_sink_inputs w self rest cmds')"

definition swap_device ::
  "world \<Rightarrow> pactl \<Rightarrow> pyval \<Rightarrow> argv list \<Rightarrow> error option \<times> pactl \<times> argv list" where
  "swap_device w self new_device cmds =
     (let self1 = update_device (self\<lparr>device := new_device\<rparr>)
      in case set_default_device w self1 cmds of
           (Some e, cmds1) \<Rightarrow> (Some e, self1, cmds1)
         | (None, cmds1) \<Rightarrow>
             (case get_sink_inputs w of
                Inl e \<Rightarrow> (Some e, self1, cmds1)
              | Inr inputs \<Rightarrow>
                  (case move_sink_inputs w self1 inputs cmds1 of (r, cmds2) \<Rightarrow> (r, self1, cmds2))))"

text \<open>
  \<open>Pactl.get_volume\<close>: \<open>(perc, muted)\<close>; both \<open>None\<close> when the pattern does not match
  (the \<open>AttributeError\<close> of \<open>None.groups()\<close> is caught).
\<close>

definition get_volume :: "world \<Rightarrow> pactl \<Rightarrow> error + (string option \<times> bool option)" where
  "get_volume w self =
     (case py3_command_output w [''pactl'', ''list'', device_type_pl self] of
        Inl e \<Rightarrow> Inl e
      | Inr output \<Rightarrow>
          (case re_search w (re_volume self) (py_strip output) of
             None \<Rightarrow> Inr (None, None)
           | Some (muted, perc) \<Rightarrow> Inr (Some perc, Some (muted = ''yes''))))"

text \<open>\<open>int(perc)\<close> where \<open>perc\<close> may be \<open>None\<close>.\<close>

definition int_of_perc :: "string option \<Rightarrow> error + int" where
  "int_of_perc perc = (case perc of None \<Rightarrow> Inl TypeError | Some s \<Rightarrow> py_int s)"

definition volume_up :: "world \<Rightarrow> pactl \<Rightarrow> int \<Rightarrow> argv list \<Rightarrow> error option \<times> argv list" where
  "volume_up w self delta cmds =
     (case get_volume w self of
        Inl e \<Rightarrow> (Some e, cmds)
      | Inr (perc, muted) \<Rightarrow>
          (case int_of_perc perc of
             Inl e \<Rightarrow> (Some e, cmds)
           | Inr p \<Rightarrow>
               (let change = (if p + delta \<ge> max_volume self
                              then str_int (max_volume self) @ ''%''
                              else ''+'' @ str_int delta @ ''%'')
                in run_cmd w [PStr ''pactl'', PStr ''--'',
                              PStr (''set-'' @ device_type self @ ''-volume''),
                              device self, PStr change] cmds)))"

definition volume_down :: "world \<Rightarrow> pactl \<Rightarrow> int \<Rightarrow> argv list \<Rightarrow> error option \<times> argv list" where
  "volume_down w self delta cmds =
     run_cmd w [PStr ''pactl'', PStr ''--'', PStr (''set-'' @ device_type self @ ''-volume''),
                device self, PStr (''-'' @ str_int delta @ ''%'')] cmds"

definition toggle_mute :: "world \<Rightarrow> pactl \<Rightarrow> argv list \<Rightarrow> error option \<times> argv list" where
  "toggle_mute w self cmds =
     run_cmd w [PStr ''pactl'', PStr (''set-'' @ device_type self @ ''-mute''),
                device self, PStr ''toggle''] cmds"

text \<open>
  The constructor of the backend (the initialiser of \<open>Audio\<close>, then that of \<open>Pactl\<close>): the attributes copied from the parent,
  the device type names, the default device's index and the volume pattern.
\<close>

definition pactl_setup :: "world \<Rightarrow> pyval \<Rightarrow> bool \<Rightarrow> int \<Rightarrow> error + pactl" where
  "pactl_setup w parent_device parent_is_input parent_max_volume =
     (let dt = (if parent_is_input then ''source'' else ''sink'');
          self = \<lparr>device = parent_device, is_input = parent_is_input,
                  max_volume = parent_max_volume,
                  device_type = dt, device_type_pl = dt @ ''s'',
                  device_type_cap = py_upper (hd dt) # tl dt, re_volume = []\<rparr>
      in case get_default_device w self False of
           Inl e \<Rightarrow> Inl e
         | Inr None \<Rightarrow> Inl RuntimeError
         | Inr (Some i) \<Rightarrow> Inr (update_device (self\<lparr>device := PStr i\<rparr>)))"

section \<open>Double-precision arithmetic of the glyph index\<close>

text \<open>
  \<open>int(perc) / 100 * (len(self.blocks) - 1)\<close> is computed in binary64: the true
  division of two integers is correctly rounded, the integer factor is converted to a
  double, and the product is rounded again.  A double is kept as a pair \<open>(m, e)\<close> that
  stands for \<open>m * 2^e\<close>; \<open>fl a b\<close> is the double nearest to \<open>a / b\<close> (53-bit
  significand, ties to even).  Overflow and subnormal numbers are out of reach of a
  percentage of at most three digits and the length of a string.
\<close>

type_synonym double = "int \<times> int"

definition pow2 :: "int \<Rightarrow> rat" where
  "pow2 e = (if 0 \<le> e then 2 ^ nat e else 1 / 2 ^ nat (- e))"

definition dval :: "double \<Rightarrow> rat" where
  "dval d = of_int (fst d) * pow2 (snd d)"

fun bitlen :: "nat \<Rightarrow> nat" where
  "bitlen n = (if n = 0 then 0 else Suc (bitlen (n div 2)))"

declare bitlen.simps [simp del]

text \<open>\<open>ilog2 a b\<close> is the integer \<open>k\<close> with \<open>2^k \<le> a / b < 2^(k+1)\<close>, for \<open>a, b > 0\<close>.\<close>

definition ilog2 :: "int \<Rightarrow> int \<Rightarrow> int" where
  "ilog2 a b =
     (let k = int (bitlen (nat a)) - int (bitlen (nat b))
      in if (if 0 \<le> k then b * 2 ^ nat k \<le> a else b \<le> a * 2 ^ nat (- k)) then k else k - 1)"

text \<open>The integer nearest to \<open>a / b\<close> for \<open>b > 0\<close>, the even one of two equally near.\<close>

definition round_half_even :: "int \<Rightarrow> int \<Rightarrow> int" where
  "round_half_even a b =
     (let q = a div b; r = a mod b
      in if 2 * r < b then q else if b < 2 * r then q + 1 else if even q then q else q + 1)"

definition fl :: "int \<Rightarrow> int \<Rightarrow> double" where
  "fl a b =
     (if a = 0 then (0, 0)
      else (let e = ilog2 \<bar>a\<bar> b - 52;
                m = (if 0 \<le> e then round_half_even \<bar>a\<bar> (b * 2 ^ nat e)
                     else round_half_even (\<bar>a\<bar> * 2 ^ nat (- e)) b)
            in (sgn a * m, e)))"

text \<open>The product of two doubles, and \<open>math.ceil\<close>.\<close>

definition dmul :: "double \<Rightarrow> double \<Rightarrow> double" where
  "dmul x y = (case fl (fst x * fst y) 1 of (m, e) \<Rightarrow> (m, e + snd x + snd y))"

definition dceil :: "double \<Rightarrow> int" where
  "dceil d = (if 0 \<le> snd d then fst d * 2 ^ nat (snd d)
              else - ((- fst d) div 2 ^ nat (- snd d)))"

text \<open>
  \<open>min(len(self.blocks) - 1, int(math.ceil(int(perc) / 100 * (len(self.blocks) - 1))))\<close>
  for the integer \<open>p = int(perc)\<close> and the length \<open>L\<close> of the ramp.
\<close>

definition icon_index :: "int \<Rightarrow> int \<Rightarrow> int" where
  "icon_index p L = min (L - 1) (dceil (dmul (fl p 100) (fl (L - 1) 1)))"

section \<open>class Py3status\<close>

text \<open>
  The configuration parameters (class attributes), then what the instance holds after
  \<open>post_config_hook\<close>.  \<open>blocks\<close> is a string of Unicode characters, kept as the list
  of their code points.  The two entries of \<open>py3.storage\<close> and the list of the
  commands run so far are carried in the same record.  The attributes \<open>card\<close> and
  \<open>channel\<close> are left out (the \<open>Pactl\<close> backend never reads them), and so is
  \<open>device\<close>, which \<open>post_config_hook\<close> resets to 0 before the backend is built.
  The storage starts empty and no command has been run when \<open>post_config_hook\<close>
  returns.
\<close>

record config =
  blocks :: "nat list"
  button_left :: int
  button_right :: int
  scroll_up :: int
  scroll_down :: int
  cache_timeout :: int
  command :: "string option"
  format :: string
  format_muted :: string
  is_input_cfg :: bool
  max_volume_cfg :: int
  thresholds :: "(int \<times> string) list"
  volume_delta :: int

record py3status = config +
  backend :: pactl
  color_muted :: "string option"
  storage_edit_mode :: "bool option"
  storage_sink_name :: "string option"
  commands_run :: "argv list"

text \<open>The class attributes as the file sets them; the two templates are left open.\<close>

definition default_config :: "string \<Rightarrow> string \<Rightarrow> config" where
  "default_config fmt fmt_muted =
     \<lparr>blocks = [0x5F, 0x2581, 0x2582, 0x2583, 0x2584, 0x2585, 0x2586, 0x2587, 0x2588],
      button_left = 1, button_right = 3, scroll_up = 4, scroll_down = 5,
      cache_timeout = 10, command = None, format = fmt, format_muted = fmt_muted,
      is_input_cfg = False, max_volume_cfg = 200,
      thresholds = [(0, ''bad''), (20, ''degraded''), (50, ''good'')],
      volume_delta = 5\<rparr>"

subsection \<open>post_config_hook\<close>

definition STRING_ERROR :: "string \<Rightarrow> string" where
  "STRING_ERROR c = ''invalid command `'' @ c @ ''`''"

definition STRING_NOT_AVAILABLE :: string where
  "STRING_NOT_AVAILABLE = ''no available binary''"

definition COMMAND_NOT_INSTALLED :: "string \<Rightarrow> string" where
  "COMMAND_NOT_INSTALLED c = ''command `'' @ c @ ''` not installed''"

text \<open>
  Lines 299 to 310: \<open>candidates\<close> is the list \<open>commands\<close> (only \<open>amixer\<close>
  without pulseaudio), \<open>select_command\<close> the value of \<open>self.command\<close> after the
  selection, or the exception raised.
\<close>

definition candidates :: "world \<Rightarrow> string list" where
  "candidates w = (if check_commands w [''pulseaudio''] = None then [''amixer'']
                   else [''pamixer'', ''pactl'', ''amixer''])"

definition select_command :: "world \<Rightarrow> string option \<Rightarrow> error + string" where
  "select_command w cmd =
     (if \<not> truthy_str cmd then
        (case check_commands w (candidates w) of
           None \<Rightarrow> Inl (Exception STRING_NOT_AVAILABLE)
         | Some c \<Rightarrow> if c = [] then Inl (Exception STRING_NOT_AVAILABLE) else Inr c)
      else if the cmd \<notin> set [''amixer'', ''pamixer'', ''pactl''] then
        Inl (Exception (STRING_ERROR (the cmd)))
      else if check_commands w [the cmd] = None then
        Inl (Exception (COMMAND_NOT_INSTALLED (the cmd)))
      else Inr (the cmd))"

text \<open>
  \<open>globals()[self.command.capitalize()](self)\<close>: of the three names a selected command
  can give, the module defines the class \<open>Pactl\<close> only.
\<close>

definition make_backend :: "world \<Rightarrow> string \<Rightarrow> config \<Rightarrow> error + pactl" where
  "make_backend w cmd self =
     (if capitalize cmd = ''Pactl''
      then pactl_setup w (PInt 0) (is_input_cfg self) (max_volume_cfg self)
      else Inl (KeyError (capitalize cmd)))"

definition post_config_hook :: "world \<Rightarrow> config \<Rightarrow> error + py3status" where
  "post_config_hook w self =
     (case select_command w (command self) of
        Inl e \<Rightarrow> Inl e
      | Inr c \<Rightarrow>
          (case make_backend w c self of
             Inl e \<Rightarrow> Inl e
           | Inr b \<Rightarrow>
               Inr (config.extend (self\<lparr>command := Some c\<rparr>)
                      (py3status.fields b
                         (if truthy_str (COLOR_MUTED w) then COLOR_MUTED w else COLOR_BAD w)
                         None None []))))"

subsection \<open>volume_status\<close>

text \<open>
  The result of \<open>volume_status\<close>: the argument of \<open>py3.time_in\<close>, the template and
  the entries of \<open>volume_data\<close> handed to \<open>py3.safe_format\<close> (the key \<open>sink_name\<close>
  is present in edit mode only), and the colour.
\<close>

record status =
  cached_until :: int
  full_text_format :: string
  icon :: "nat option"
  percentage :: string
  sink_name :: "string option option"
  color :: "string option"

definition render ::
  "py3status \<Rightarrow> string \<Rightarrow> nat option \<Rightarrow> string \<Rightarrow> string option \<Rightarrow> status" where
  "render self new_format icon_v perc color_v =
     \<lparr>cached_until = cache_timeout self,
      full_text_format = new_format,
      icon = icon_v,
      percentage = perc,
      sink_name = (if truthy_bool (storage_edit_mode self)
                   then Some (storage_sink_name self) else None),
      color = color_v\<rparr>"

definition volume_status :: "world \<Rightarrow> py3status \<Rightarrow> error + status" where
  "volume_status w self =
     (case get_volume w (backend self) of
        Inl e \<Rightarrow> Inl e
      | Inr (perc, muted) \<Rightarrow>
          (case perc of
             None \<Rightarrow> Inr (render self (format self) None ''?'' None)
           | Some s \<Rightarrow>
               if truthy_bool muted
               then Inr (render self (format_muted self) None s (color_muted self))
               else (case py_int s of
                       Inl e \<Rightarrow> Inl e
                     | Inr p \<Rightarrow>
                         (case py_index (blocks self)
                                 (icon_index p (int (length (blocks self)))) of
                            Inl e \<Rightarrow> Inl e
                          | Inr g \<Rightarrow>
                              Inr (render self (format self) (Some g) s (Some ''#FFFFFF''))))))"

subsection \<open>on_click\<close>

record sink =
  name :: string
  state :: string

fun parse_sinks :: "string list \<Rightarrow> error + sink list" where
  "parse_sinks [] = Inr []"
| "parse_sinks (line # lines) =
     (case py_index (py_split line) 1 of
        Inl e \<Rightarrow> Inl e
      | Inr n \<Rightarrow>
          (case py_index (py_split line) (- 1) of
             Inl e \<Rightarrow> Inl e
           | Inr st \<Rightarrow>
               (case parse_sinks lines of
                  Inl e \<Rightarrow> Inl e
                | Inr rest \<Rightarrow> Inr (\<lparr>name = n, state = st\<rparr> # rest))))"

definition get_sink_list :: "world \<Rightarrow> error + sink list" where
  "get_sink_list w =
     (case py3_command_output w [''pactl'', ''list'', ''sinks'', ''short''] of
        Inl e \<Rightarrow> Inl e
      | Inr cmd_out \<Rightarrow> parse_sinks (butlast (split_on (CHR 0x0A) cmd_out)))"

fun sink_index_from :: "int \<Rightarrow> sink list \<Rightarrow> string option \<Rightarrow> error + int" where
  "sink_index_from i [] sink_name_v = Inl ValueError"
| "sink_index_from i (s # ss) sink_name_v =
     (if Some (name s) = sink_name_v then Inr i else sink_index_from (i + 1) ss sink_name_v)"

definition get_sink_index :: "sink list \<Rightarrow> string option \<Rightarrow> error + int" where
  "get_sink_index sink_list sink_name_v = sink_index_from 0 sink_list sink_name_v"

text \<open>
  The loop \<open>while sink_list[ind]['state'] == 'SUSPENDED'\<close>: the index at which it stops,
  or the exception it raises; \<open>None\<close> when it runs forever.
\<close>

partial_function (option) skip_suspended ::
  "sink list \<Rightarrow> int \<Rightarrow> int \<Rightarrow> (error + int) option" where
  "skip_suspended sink_list delta ind =
     (case py_index sink_list ind of
        Inl e \<Rightarrow> Some (Inl e)
      | Inr s \<Rightarrow>
          if state s = ''SUSPENDED''
          then (case py_mod (ind + delta) (int (length sink_list)) of
                  Inl e \<Rightarrow> Some (Inl e)
                | Inr ind' \<Rightarrow> skip_suspended sink_list delta ind')
          else Some (Inr ind))"

text \<open>
  The scroll branch after the list of sinks is read.  \<open>delta\<close> tests the attribute
  \<open>self.scroll_up\<close>, not the button of the event.
\<close>

definition cycle_sink ::
  "world \<Rightarrow> py3status \<Rightarrow> sink list \<Rightarrow> (error option \<times> py3status) option" where
  "cycle_sink w self sink_list =
     (let delta = (if scroll_up self \<noteq> 0 then - 1 else 1)
      in case (case get_sink_index sink_list (storage_sink_name self) of
                 Inl e \<Rightarrow> Inl e
               | Inr i \<Rightarrow> py_mod (i + delta) (int (length sink_list))) of
           Inl e \<Rightarrow> if e = ValueError then Some (None, self) else Some (Some e, self)
         | Inr ind0 \<Rightarrow>
             (case skip_suspended sink_list delta ind0 of
                None \<Rightarrow> None
              | Some (Inl e) \<Rightarrow> Some (Some e, self)
              | Some (Inr ind) \<Rightarrow>
                  (case py_index sink_list ind of
                     Inl e \<Rightarrow> Some (Some e, self)
                   | Inr s \<Rightarrow>
                       (let self1 = self\<lparr>storage_sink_name := Some (name s)\<rparr>
                        in case swap_device w (backend self1) (PInt ind) (commands_run self1) of
                             (r, b, cmds) \<Rightarrow>
                               Some (r, self1\<lparr>backend := b, commands_run := cmds\<rparr>)))))"

text \<open>
  \<open>on_click(event)\<close> for \<open>button = event["button"]\<close>: the exception raised, if any,
  and the instance afterwards; \<open>None\<close> when the handler does not return.
\<close>

definition on_click :: "world \<Rightarrow> int \<Rightarrow> py3status \<Rightarrow> (error option \<times> py3status) option" where
  "on_click w button self =
     (if button = button_left self then
        (let self1 = self\<lparr>storage_edit_mode := Some (\<not> truthy_bool (storage_edit_mode self))\<rparr>
         in case get_default_device w (backend self1) True of
              Inl e \<Rightarrow> Some (Some e, self1)
            | Inr d \<Rightarrow> Some (None, self1\<lparr>storage_sink_name := d\<rparr>))
      else if button = button_right self then
        (case toggle_mute w (backend self) (commands_run self) of
           (r, cmds) \<Rightarrow> Some (r, self\<lparr>commands_run := cmds\<rparr>))
      else if truthy_bool (storage_edit_mode self) then
        (if button = scroll_up self \<or> button = scroll_down self then
           (case get_sink_list w of
              Inl e \<Rightarrow> Some (Some e, self)
            | Inr sink_list \<Rightarrow> cycle_sink w self sink_list)
         else Some (None, self))
      else Some (None, self))"

section \<open>A sample environment\<close>

text \<open>
  A backend for the sink \<open>0\<close>, an environment whose commands print fixed texts and
  whose pattern search has a fixed result, and an instance with the default configuration.
\<close>

definition sample_backend :: "int \<Rightarrow> pactl" where
  "sample_backend maxv =
     update_device \<lparr>device = PStr ''0'', is_input = False, max_volume = maxv,
                     device_type = ''sink'', device_type_pl = ''sinks'',
                     device_type_cap = ''Sink'', re_volume = []\<rparr>"

definition sample_world ::
  "string \<Rightarrow> string \<Rightarrow> string \<Rightarrow> (string \<times> string) option \<Rightarrow> world" where
  "sample_world info sinks inputs m =
     \<lparr>installed = (\<lambda>c. c \<in> set [''pulseaudio'', ''pactl'']),
      py3_command_output =
        (\<lambda>cmd. if cmd = [''pactl'', ''info''] then Inr info
               else if cmd = [''pactl'', ''list'', ''sinks'', ''short''] then Inr sinks
               else if cmd = [''pactl'', ''list'', ''short'', ''sink-inputs''] then Inr inputs
               else if cmd = [''pactl'', ''list'', ''sinks''] then Inr ''Sink #0''
               else Inl CommandError),
      py3_command_run = (\<lambda>cmd. None),
      re_search = (\<lambda>pat text. m),
      COLOR_MUTED = None,
      COLOR_BAD = Some ''#FF0000''\<rparr>"

definition sample_self :: "bool option \<Rightarrow> string option \<Rightarrow> py3status" where
  "sample_self em sn =
     config.extend (default_config ''{percentage}'' ''muted'')
       (py3status.fields (sample_backend 200) (Some ''#FF0000'') em sn [])"

definition three_sinks :: string where
  "three_sinks = ''0 A module s16le RUNNING\<newline>1 B module s16le RUNNING\<newline>2 C module s16le RUNNING\<newline>''"

definition one_awake :: string where
  "one_awake = ''0 A module s16le RUNNING\<newline>1 B module s16le SUSPENDED\<newline>''"

definition all_suspended :: string where
  "all_suspended = ''0 A module s16le SUSPENDED\<newline>1 B module s16le SUSPENDED\<newline>''"

section \<open>Properties of the backend\<close>

lemma sample_self_simps:
  "button_left (sample_self em sn) = 1" "button_right (sample_self em sn) = 3"
  "scroll_up (sample_self em sn) = 4" "scroll_down (sample_self em sn) = 5"
  "storage_edit_mode (sample_self em sn) = em" "storage_sink_name (sample_self em sn) = sn"
  "commands_run (sample_self em sn) = []" "backend (sample_self em sn) = sample_backend 200"
  by (simp_all add: sample_self_def default_config_def config.extend_def py3status.fields_def)

lemma sample_world_simps:
  "py3_command_output (sample_world info sinks inputs m) [''pactl'', ''info''] = Inr info"
  "py3_command_output (sample_world info sinks inputs m) [''pactl'', ''list'', ''sinks'', ''short''] = Inr sinks"
  "py3_command_output (sample_world info sinks inputs m) [''pactl'', ''list'', ''short'', ''sink-inputs''] = Inr inputs"
  "py3_command_run (sample_world info sinks inputs m) cmd = None"
  by (simp_all add: sample_world_def)

lemma three_sinks_list:
  "get_sink_list (sample_world info three_sinks inputs m) =
     Inr [\<lparr>name = ''A'', state = ''RUNNING''\<rparr>, \<lparr>name = ''B'', state = ''RUNNING''\<rparr>,
          \<lparr>name = ''C'', state = ''RUNNING''\<rparr>]"
  by (simp add: get_sink_list_def sample_world_simps three_sinks_def split_on_def py_split_def
                py_isspace_def whitespace_def py_index_def)


lemma sample_get_volume:
  "get_volume (sample_world i s n m) (sample_backend maxv) =
     (case m of None \<Rightarrow> Inr (None, None) | Some (mu, pe) \<Rightarrow> Inr (Some pe, Some (mu = ''yes'')))"
  by (simp add: get_volume_def sample_world_def sample_backend_def update_device_def split: option.splits)

text \<open>
  Claim C4.  When the current percentage plus \<open>delta\<close> reaches \<open>max_volume\<close>,
  \<open>volume_up\<close> runs the absolute command \<open>set-<type>-volume <device> <max_volume>%\<close>;
  otherwise it runs the relative command with \<open>+<delta>%\<close>.  For 98, 5 and 100 the
  argument is \<open>100%\<close>; for 50, 5 and 120 it is \<open>+5%\<close>.
\<close>

theorem volume_up_clamps:
  assumes "get_volume w self = Inr (Some perc, muted)" and "py_int perc = Inr p"
  shows "(max_volume self \<le> p + delta \<longrightarrow>
            volume_up w self delta cmds =
              run_cmd w [PStr ''pactl'', PStr ''--'', PStr (''set-'' @ device_type self @ ''-volume''),
                         device self, PStr (str_int (max_volume self) @ ''%'')] cmds)
       \<and> (p + delta < max_volume self \<longrightarrow>
            volume_up w self delta cmds =
              run_cmd w [PStr ''pactl'', PStr ''--'', PStr (''set-'' @ device_type self @ ''-volume''),
                         device self, PStr (''+'' @ str_int delta @ ''%'')] cmds)"
  using assms by (simp add: volume_up_def int_of_perc_def)

theorem volume_up_clamps_witness:
  "volume_up (sample_world [] [] [] (Some (''no'', ''98''))) (sample_backend 100) 5 [] =
     (None, [[PStr ''pactl'', PStr ''--'', PStr ''set-sink-volume'', PStr ''0'', PStr ''100%'']])
   \<and> volume_up (sample_world [] [] [] (Some (''no'', ''50''))) (sample_backend 120) 5 [] =
     (None, [[PStr ''pactl'', PStr ''--'', PStr ''set-sink-volume'', PStr ''0'', PStr ''+5%'']])"
proof -
  have g1: "get_volume (sample_world [] [] [] (Some (''no'', ''98''))) (sample_backend 100)
              = Inr (Some ''98'', Some False)"
    by (simp add: sample_get_volume)
  have g2: "get_volume (sample_world [] [] [] (Some (''no'', ''50''))) (sample_backend 120)
              = Inr (Some ''50'', Some False)"
    by (simp add: sample_get_volume)
  have p1: "py_int ''98'' = Inr 98"
    by (simp add: py_int_def is_digit_def int_of_digits_def digit_val_def)
  have p2: "py_int ''50'' = Inr 50"
    by (simp add: py_int_def is_digit_def int_of_digits_def digit_val_def)
  show ?thesis
    using volume_up_clamps [OF g1 p1, of 5 "[]"] volume_up_clamps [OF g2 p2, of 5 "[]"]
    by (simp add: run_cmd_def sample_world_def sample_backend_def update_device_def
                  str_int_def str_nat.simps digit_char_def)
qed

text \<open>
  Claim C10.  When the pattern finds no match, \<open>get_volume\<close> returns \<open>None\<close> for the
  percentage, and \<open>volume_up\<close> raises \<open>TypeError\<close> at \<open>int(perc)\<close>: it runs no
  command.
\<close>

theorem volume_up_unknown_raises:
  assumes "py3_command_output w [''pactl'', ''list'', device_type_pl self] = Inr output"
    and "re_search w (re_volume self) (py_strip output) = None"
  shows "get_volume w self = Inr (None, None)
       \<and> volume_up w self delta cmds = (Some TypeError, cmds)"
  using assms by (simp add: volume_up_def get_volume_def int_of_perc_def)

theorem volume_up_unknown_raises_witness:
  "volume_up (sample_world [] [] [] None) (sample_backend 100) 5 [] = (Some TypeError, [])"
  using volume_up_unknown_raises
    [of "sample_world [] [] [] None" "sample_backend 100" "''Sink #0''" 5 "[]"]
  by (simp add: sample_world_def sample_backend_def update_device_def)

section \<open>Properties of the formatter\<close>

text \<open>
  Claim C5.  When the pattern finds no match in the captured text, \<open>get_volume\<close>
  returns \<open>(None, None)\<close> without raising, and \<open>volume_status\<close> returns a status whose
  percentage is the marker \<open>?\<close> and whose icon is absent.
\<close>

theorem unknown_volume_renders_question_mark:
  assumes "py3_command_output w [''pactl'', ''list'', device_type_pl (backend self)] = Inr output"
    and "re_search w (re_volume (backend self)) (py_strip output) = None"
  shows "get_volume w (backend self) = Inr (None, None)
       \<and> volume_status w self = Inr (render self (format self) None ''?'' None)
       \<and> percentage (render self (format self) None ''?'' None) = ''?''
       \<and> icon (render self (format self) None ''?'' None) = None"
  using assms by (simp add: volume_status_def get_volume_def render_def)

theorem unknown_volume_renders_question_mark_witness:
  "volume_status (sample_world [] [] [] None) (sample_self None None) =
     Inr \<lparr>cached_until = 10, full_text_format = ''{percentage}'', icon = None,
          percentage = ''?'', sink_name = None, color = None\<rparr>"
  using unknown_volume_renders_question_mark
    [of "sample_world [] [] [] None" "sample_self None None" "''Sink #0''"]
  by (simp add: sample_world_def sample_self_def sample_backend_def update_device_def
                render_def default_config_def config.extend_def py3status.fields_def
                truthy_bool_def)

section \<open>Properties of backend selection\<close>

lemma candidates_nonempty: "c \<in> set (candidates w) \<Longrightarrow> c \<noteq> []"
  by (auto simp: candidates_def split: if_splits)

text \<open>
  Claim C8.  Without an override, \<open>select_command\<close> returns the first installed command of
  the candidate list; with an override it returns the override.  It raises (always an
  \<open>Exception\<close> with a message) exactly when the override is not one of the three
  supported names, or is not installed, or no candidate is installed.
\<close>

theorem select_command_first_available:
  "(select_command w cmd = Inr c \<longleftrightarrow>
      (if truthy_str cmd
       then cmd = Some c \<and> c \<in> set [''amixer'', ''pamixer'', ''pactl''] \<and> installed w c
       else (\<exists>i < length (candidates w). candidates w ! i = c \<and> installed w c
               \<and> (\<forall>j < i. \<not> installed w (candidates w ! j)))))
   \<and> ((\<exists>e. select_command w cmd = Inl e) \<longleftrightarrow>
      (if truthy_str cmd
       then the cmd \<notin> set [''amixer'', ''pamixer'', ''pactl''] \<or> \<not> installed w (the cmd)
       else (\<forall>c \<in> set (candidates w). \<not> installed w c)))
   \<and> (\<forall>e. select_command w cmd = Inl e \<longrightarrow> (\<exists>msg. e = Exception msg))"
proof (cases "truthy_str cmd")
  case True
  then obtain s where s: "cmd = Some s" "s \<noteq> []"
    by (auto simp: truthy_str_def split: option.splits)
  show ?thesis using True s
    by (auto simp: select_command_def check_commands_def)
next
  case False
  show ?thesis
  proof (cases "find (installed w) (candidates w)")
    case None
    have sel: "select_command w cmd = Inl (Exception STRING_NOT_AVAILABLE)"
      using False None by (simp add: select_command_def check_commands_def)
    have no: "\<forall>c \<in> set (candidates w). \<not> installed w c"
      using None by (simp add: find_None_iff)
    then have "\<not> (\<exists>i < length (candidates w). candidates w ! i = c \<and> installed w c
               \<and> (\<forall>j < i. \<not> installed w (candidates w ! j)))"
      by (metis nth_mem)
    then show ?thesis using False sel no by simp
  next
    case (Some d)
    then have d: "d \<in> set (candidates w)" "installed w d"
      by (auto simp: find_Some_iff)
    then have "d \<noteq> []" by (simp add: candidates_nonempty)
    then have sel: "select_command w cmd = Inr d"
      using False Some by (simp add: select_command_def check_commands_def)
    have first: "(d = c) \<longleftrightarrow> (\<exists>i < length (candidates w). candidates w ! i = c \<and> installed w c
               \<and> (\<forall>j < i. \<not> installed w (candidates w ! j)))"
      using Some by (auto simp: find_Some_iff) (metis linorder_neqE_nat)
    have "\<not> (\<forall>c \<in> set (candidates w). \<not> installed w c)"
      using d by blast
    then show ?thesis using False sel first by simp
  qed
qed

theorem select_command_first_available_witness:
  "select_command (sample_world [] [] [] None) None = Inr ''pactl''
   \<and> (\<exists>e. select_command (sample_world [] [] [] None) (Some ''amixer'') = Inl e)
   \<and> (\<exists>e. select_command (sample_world [] [] [] None) (Some ''mixer'') = Inl e)"
proof -
  let ?w = "sample_world [] [] [] None"
  have c: "candidates ?w = [''pamixer'', ''pactl'', ''amixer'']"
    by (simp add: candidates_def check_commands_def sample_world_def)
  have "\<exists>i < length (candidates ?w). candidates ?w ! i = ''pactl'' \<and> installed ?w ''pactl''
               \<and> (\<forall>j < i. \<not> installed ?w (candidates ?w ! j))"
    unfolding c by (rule exI [of _ 1]) (simp add: sample_world_def)
  then have 1: "select_command ?w None = Inr ''pactl''"
    using select_command_first_available [of ?w None "''pactl''"]
    by (simp add: truthy_str_def)
  have 2: "\<exists>e. select_command ?w (Some ''amixer'') = Inl e"
    using select_command_first_available [of ?w "Some ''amixer''" "[]"]
    by (simp add: truthy_str_def sample_world_def)
  have 3: "\<exists>e. select_command ?w (Some ''mixer'') = Inl e"
    using select_command_first_available [of ?w "Some ''mixer''" "[]"]
    by (simp add: truthy_str_def)
  show ?thesis using 1 2 3 by simp
qed

section \<open>Properties of the click handler\<close>

lemma sink_index_from_absent:
  "sink_name_v \<notin> Some ` name ` set sink_list \<Longrightarrow>
     sink_index_from i sink_list sink_name_v = Inl ValueError"
  by (induction sink_list arbitrary: i) auto

text \<open>
  Claim C7.  In edit mode, a scroll event whose stored sink name does not occur in the
  list of sinks returns without raising, changes nothing in the instance and runs no
  command.
\<close>

theorem scroll_unknown_selection_noop:
  assumes "button \<noteq> button_left self" and "button \<noteq> button_right self"
    and "truthy_bool (storage_edit_mode self)"
    and "button = scroll_up self \<or> button = scroll_down self"
    and "get_sink_list w = Inr sink_list"
    and "storage_sink_name self \<notin> Some ` name ` set sink_list"
  shows "on_click w button self = Some (None, self)"
  using assms
  by (simp add: on_click_def cycle_sink_def get_sink_index_def sink_index_from_absent)

theorem scroll_unknown_selection_noop_witness:
  "on_click (sample_world [] three_sinks [] None) 5 (sample_self (Some True) (Some ''D''))
     = Some (None, sample_self (Some True) (Some ''D''))"
  using scroll_unknown_selection_noop
    [of 5 "sample_self (Some True) (Some ''D'')" "sample_world [] three_sinks [] None",
     OF _ _ _ _ three_sinks_list]
  by (simp add: sample_self_simps truthy_bool_def)

text \<open>
  Claim C9, as stated, fails: on the primary click that leaves edit mode the stored
  sink name is overwritten.  With \<open>A\<close> stored and \<open>B\<close> the default sink that
  \<open>pactl info\<close> reports, \<open>B\<close> is stored afterwards.
\<close>

theorem primary_click_overwrites_selection:
  "on_click (sample_world ''Default Sink: B\<newline>'' [] [] None) 1 (sample_self (Some True) (Some ''A''))
     = Some (None, sample_self (Some False) (Some ''B''))
   \<and> storage_sink_name (sample_self (Some False) (Some ''B''))
       \<noteq> storage_sink_name (sample_self (Some True) (Some ''A''))"
  by (simp add: on_click_def sample_self_simps get_default_device_def sample_world_simps
        sample_backend_def update_device_def py_splitlines_def linebreaks_def
        default_dev_match_def truthy_bool_def Let_def)
     (simp add: sample_self_def config.extend_def py3status.fields_def)

text \<open>
  Claim C9, amended.  On the primary click in edit mode the flag is cleared, and the
  stored sink name is replaced by the name of the default device that \<open>pactl info\<close>
  reports (\<open>None\<close> when no line names one); it is kept only when that query raises.
\<close>

theorem primary_click_leaves_edit_mode:
  assumes "button = button_left self" and "storage_edit_mode self = Some True"
  shows "on_click w button self =
           (case get_default_device w (backend self) True of
              Inl e \<Rightarrow> Some (Some e, self\<lparr>storage_edit_mode := Some False\<rparr>)
            | Inr d \<Rightarrow> Some (None, self\<lparr>storage_edit_mode := Some False,
                                         storage_sink_name := d\<rparr>))"
  using assms by (simp add: on_click_def truthy_bool_def Let_def)

theorem primary_click_leaves_edit_mode_witness:
  "on_click (sample_world ''Default Sink: B\<newline>'' [] [] None) 1
       (sample_self (Some True) (Some ''A''))
     = Some (None, (sample_self (Some True) (Some ''A''))
                      \<lparr>storage_edit_mode := Some False, storage_sink_name := Some ''B''\<rparr>)"
  using primary_click_leaves_edit_mode
    [of 1 "sample_self (Some True) (Some ''A'')" "sample_world ''Default Sink: B\<newline>'' [] [] None"]
  by (simp add: sample_self_simps get_default_device_def sample_world_simps
        sample_backend_def update_device_def py_splitlines_def linebreaks_def
        default_dev_match_def Let_def)

text \<open>
  Claim C2: the step is meant to be \<open>-1\<close> for the scroll-up button and \<open>+1\<close> for the
  scroll-down button.  The handler computes \<open>-1 if self.scroll_up else 1\<close>, which tests
  the configured button number and not the event: with three running sinks \<open>A\<close>,
  \<open>B\<close>, \<open>C\<close> and \<open>A\<close> selected, the scroll-down button (5) selects \<open>C\<close>, as
  the scroll-up button (4) does.
\<close>

theorem scroll_down_steps_backwards:
  "on_click (sample_world [] three_sinks [] None) 5 (sample_self (Some True) (Some ''A''))
     = Some (None, (sample_self (Some True) (Some ''C''))
                     \<lparr>backend := update_device ((sample_backend 200)\<lparr>device := PInt 2\<rparr>),
                      commands_run := [[PStr ''pactl'', PStr ''set-default-sink'', PStr ''2'']]\<rparr>)
   \<and> on_click (sample_world [] three_sinks [] None) 5 (sample_self (Some True) (Some ''A''))
     = on_click (sample_world [] three_sinks [] None) 4 (sample_self (Some True) (Some ''A''))"
proof -
  let ?w = "sample_world [] three_sinks [] None"
  let ?s = "sample_self (Some True) (Some ''A'')"
  have sw: "swap_device ?w (sample_backend 200) (PInt 2) []
      = (None, update_device ((sample_backend 200)\<lparr>device := PInt 2\<rparr>),
         [[PStr ''pactl'', PStr ''set-default-sink'', PStr ''2'']])"
    by (simp add: swap_device_def set_default_device_def run_cmd_def sample_world_simps
          get_sink_inputs_def split_on_def update_device_def sample_backend_def Let_def
          str_int_def str_nat.simps digit_char_def)
  have cy: "cycle_sink ?w ?s [\<lparr>name = ''A'', state = ''RUNNING''\<rparr>,
              \<lparr>name = ''B'', state = ''RUNNING''\<rparr>, \<lparr>name = ''C'', state = ''RUNNING''\<rparr>]
      = Some (None, ?s\<lparr>storage_sink_name := Some ''C'',
                        backend := update_device ((sample_backend 200)\<lparr>device := PInt 2\<rparr>),
                        commands_run := [[PStr ''pactl'', PStr ''set-default-sink'', PStr ''2'']]\<rparr>)"
    by (simp add: cycle_sink_def sample_self_simps get_sink_index_def py_mod_def
          skip_suspended.simps py_index_def sw Let_def)
  have eq: "?s\<lparr>storage_sink_name := Some ''C''\<rparr> = sample_self (Some True) (Some ''C'')"
    by (simp add: sample_self_def config.extend_def py3status.fields_def)
  show ?thesis
    using cy eq by (simp add: on_click_def sample_self_simps three_sinks_list truthy_bool_def)
qed

section \<open>The colour of a known volume\<close>

lemma icon_index_35: "icon_index 35 9 = 3"
  by (simp add: icon_index_def dceil_def dmul_def fl_def ilog2_def round_half_even_def
        bitlen.simps Let_def)

lemma thresholds_ignored:
  "volume_status w (self\<lparr>thresholds := t\<rparr>) = volume_status w self"
  by (simp add: volume_status_def render_def split: sum.splits option.splits prod.splits)

text \<open>
  Claim C3: the colour is meant to come from the threshold list.  \<open>volume_status\<close> sets
  it to \<open>#FFFFFF\<close> for every known, unmuted percentage: with the default thresholds and
  35 percent the colour is \<open>#FFFFFF\<close>, not that of the tier \<open>degraded\<close>.
\<close>

theorem known_volume_color_is_white:
  "volume_status (sample_world [] [] [] (Some (''no'', ''35''))) (sample_self None None) =
     Inr \<lparr>cached_until = 10, full_text_format = ''{percentage}'', icon = Some 0x2583,
          percentage = ''35'', sink_name = None, color = Some ''#FFFFFF''\<rparr>
   \<and> thresholds (sample_self None None) = [(0, ''bad''), (20, ''degraded''), (50, ''good'')]"
proof -
  have p: "py_int ''35'' = Inr 35"
    by (simp add: py_int_def is_digit_def int_of_digits_def digit_val_def)
  have b: "blocks (sample_self None None)
             = [0x5F, 0x2581, 0x2582, 0x2583, 0x2584, 0x2585, 0x2586, 0x2587, 0x2588]"
    and t: "thresholds (sample_self None None) = [(0, ''bad''), (20, ''degraded''), (50, ''good'')]"
    and f: "format (sample_self None None) = ''{percentage}''"
    and c: "cache_timeout (sample_self None None) = 10"
    by (simp_all add: sample_self_def default_config_def config.extend_def py3status.fields_def)
  show ?thesis
    by (simp add: volume_status_def sample_self_simps sample_get_volume p b t f c
          icon_index_35 py_index_def render_def truthy_bool_def)
qed

section \<open>The loop that skips suspended sinks\<close>

lemma skip_suspended_forever_aux:
  assumes "skip_suspended sl delta ind = Some r"
  shows "\<not> (sl \<noteq> [] \<and> (\<forall>s \<in> set sl. state s = ''SUSPENDED'') \<and> 0 \<le> ind \<and> ind < int (length sl))"
proof (rule skip_suspended.raw_induct
    [where P = "\<lambda>sl delta ind r. \<not> (sl \<noteq> [] \<and> (\<forall>s \<in> set sl. state s = ''SUSPENDED'')
                   \<and> 0 \<le> ind \<and> ind < int (length sl))", OF _ assms])
  fix f :: "sink list \<Rightarrow> int \<Rightarrow> int \<Rightarrow> (error + int) option"
  fix sl delta ind r
  assume IH: "\<And>sl delta ind r. f sl delta ind = Some r \<Longrightarrow>
                \<not> (sl \<noteq> [] \<and> (\<forall>s \<in> set sl. state s = ''SUSPENDED'') \<and> 0 \<le> ind \<and> ind < int (length sl))"
  assume body: "(case py_index sl ind of
        Inl e \<Rightarrow> Some (Inl e)
      | Inr s \<Rightarrow>
          if state s = ''SUSPENDED''
          then (case py_mod (ind + delta) (int (length sl)) of
                  Inl e \<Rightarrow> Some (Inl e)
                | Inr ind' \<Rightarrow> f sl delta ind')
          else Some (Inr ind)) = Some r"
  show "\<not> (sl \<noteq> [] \<and> (\<forall>s \<in> set sl. state s = ''SUSPENDED'') \<and> 0 \<le> ind \<and> ind < int (length sl))"
  proof
    assume a: "sl \<noteq> [] \<and> (\<forall>s \<in> set sl. state s = ''SUSPENDED'') \<and> 0 \<le> ind \<and> ind < int (length sl)"
    then have idx: "py_index sl ind = Inr (sl ! nat ind)"
      by (simp add: py_index_def)
    have "nat ind < length sl" using a by linarith
    then have susp: "state (sl ! nat ind) = ''SUSPENDED''"
      using a nth_mem by blast
    let ?ind' = "(ind + delta) mod int (length sl)"
    have m: "py_mod (ind + delta) (int (length sl)) = Inr ?ind'"
      using a by (simp add: py_mod_def)
    have "f sl delta ?ind' = Some r"
      using body idx susp m by simp
    moreover have "0 \<le> ?ind' \<and> ?ind' < int (length sl)"
      using a by simp
    ultimately show False using IH a by blast
  qed
qed

lemma skip_suspended_forever:
  assumes "sl \<noteq> []" and "\<forall>s \<in> set sl. state s = ''SUSPENDED''"
    and "0 \<le> ind" and "ind < int (length sl)"
  shows "skip_suspended sl delta ind = None"
  using skip_suspended_forever_aux [of sl delta ind] assms
  by (cases "skip_suspended sl delta ind") auto

lemma skip_suspended_reaches:
  assumes i: "0 \<le> i" "i < int (length sl)"
    and cur: "state (sl ! nat i) \<noteq> ''SUSPENDED''"
    and others: "\<forall>j < length sl. int j \<noteq> i \<longrightarrow> state (sl ! j) = ''SUSPENDED''"
    and d: "delta = 1 \<or> delta = - 1"
    and k: "k = nat (((i - ind) * delta) mod int (length sl))"
    and ind: "0 \<le> ind" "ind < int (length sl)"
  shows "skip_suspended sl delta ind = Some (Inr i)"
  using k ind
proof (induction k arbitrary: ind)
  case 0
  have n: "0 < int (length sl)" using i by linarith
  have "((i - ind) * delta) mod int (length sl) = 0"
    using 0(1) Euclidean_Rings.pos_mod_sign [OF n, of "(i - ind) * delta"] by linarith
  then have "int (length sl) dvd (i - ind) * delta" by presburger
  then have "int (length sl) dvd (i - ind)"
    using d by (auto simp: dvd_diff_commute)
  moreover have "\<bar>i - ind\<bar> < int (length sl)" using i 0 by linarith
  ultimately have "\<not> 0 < \<bar>i - ind\<bar>"
    using zdvd_not_zless [of "\<bar>i - ind\<bar>" "int (length sl)"] dvd_abs_iff by blast
  then have "i - ind = 0" by linarith
  then have "ind = i" by simp
  then show ?case
    using i cur by (subst skip_suspended.simps) (simp add: py_index_def)
next
  case (Suc k)
  have n: "0 < int (length sl)" using i by linarith
  let ?n = "int (length sl)"
  have pos: "((i - ind) * delta) mod ?n = int (Suc k)"
    using Suc(2) by linarith
  then have "ind \<noteq> i" by auto
  then have "int (nat ind) \<noteq> i" using Suc(3) by simp
  then have susp: "state (sl ! nat ind) = ''SUSPENDED''"
    using others Suc(3,4) by (metis nat_less_iff)
  let ?ind' = "(ind + delta) mod ?n"
  have r: "0 \<le> ?ind'" "?ind' < ?n" using n by simp_all
  have "((i - ?ind') * delta) mod ?n = ((i - (ind + delta)) * delta) mod ?n"
    by (metis mod_diff_right_eq mod_mult_left_eq)
  also have "(i - (ind + delta)) * delta = (i - ind) * delta - 1"
    using d by (auto simp: algebra_simps)
  also have "((i - ind) * delta - 1) mod ?n = (((i - ind) * delta) mod ?n - 1) mod ?n"
    by (simp add: mod_diff_left_eq)
  also have "\<dots> = int k"
    using pos Euclidean_Rings.pos_mod_bound [OF n, of "(i - ind) * delta"] by simp
  finally have "k = nat (((i - ?ind') * delta) mod ?n)" by simp
  then have "skip_suspended sl delta ?ind' = Some (Inr i)"
    using Suc(1) r by blast
  then show ?case
    using Suc(3,4) susp n
    by (subst skip_suspended.simps) (simp add: py_index_def py_mod_def)
qed

lemma sink_index_from_found:
  "sink_index_from k sl n = Inr i \<Longrightarrow>
     k \<le> i \<and> i < k + int (length sl) \<and> Some (name (sl ! nat (i - k))) = n"
proof (induction sl arbitrary: k)
  case Nil
  then show ?case by simp
next
  case (Cons s ss)
  show ?case
  proof (cases "Some (name s) = n")
    case True
    then show ?thesis using Cons.prems by auto
  next
    case False
    then have "sink_index_from (k + 1) ss n = Inr i" using Cons.prems by simp
    from Cons.IH [OF this] have h: "k + 1 \<le> i" "i < k + 1 + int (length ss)"
      "Some (name (ss ! nat (i - (k + 1)))) = n" by auto
    have "nat (i - k) = Suc (nat (i - (k + 1)))" using h by linarith
    then show ?thesis using h by simp
  qed
qed

lemma move_sink_inputs_log:
  "\<exists>more. snd (move_sink_inputs w self ins cmds) = cmds @ more"
proof (induction ins arbitrary: cmds)
  case Nil
  then show ?case by simp
next
  case (Cons a ins)
  show ?case
  proof (cases "py3_command_run w [PStr ''pactl'', PStr ''move-sink-input'', PStr a,
                      PStr (py_str (device self))]")
    case None
    then show ?thesis using Cons.IH [of "cmds @ [[PStr ''pactl'', PStr ''move-sink-input'', PStr a,
                      PStr (py_str (device self))]]"]
      by (auto simp: run_cmd_def)
  next
    case (Some e)
    then show ?thesis by (simp add: run_cmd_def)
  qed
qed

lemma swap_device_log:
  "\<exists>more. snd (snd (swap_device w self (PInt i) cmds)) =
     cmds @ [[PStr ''pactl'', PStr (''set-default-'' @ device_type self), PStr (str_int i)]] @ more"
proof -
  let ?self1 = "update_device (self\<lparr>device := PInt i\<rparr>)"
  let ?c = "[PStr ''pactl'', PStr (''set-default-'' @ device_type self), PStr (str_int i)]"
  have sd: "set_default_device w ?self1 cmds = (py3_command_run w ?c, cmds @ [?c])"
    by (simp add: set_default_device_def run_cmd_def update_device_def)
  show ?thesis
  proof (cases "py3_command_run w ?c")
    case (Some e)
    then show ?thesis by (simp add: swap_device_def sd Let_def)
  next
    case None
    show ?thesis
    proof (cases "get_sink_inputs w")
      case (Inl e)
      then show ?thesis using None by (simp add: swap_device_def sd Let_def)
    next
      case (Inr ins)
      obtain more where "snd (move_sink_inputs w ?self1 ins (cmds @ [?c])) = (cmds @ [?c]) @ more"
        using move_sink_inputs_log by blast
      then show ?thesis using None Inr
        by (cases "move_sink_inputs w ?self1 ins (cmds @ [?c])")
           (simp add: swap_device_def sd Let_def)
    qed
  qed
qed

lemma one_awake_list:
  "get_sink_list (sample_world info one_awake inputs m) =
     Inr [\<lparr>name = ''A'', state = ''RUNNING''\<rparr>, \<lparr>name = ''B'', state = ''SUSPENDED''\<rparr>]"
  by (simp add: get_sink_list_def sample_world_simps one_awake_def split_on_def py_split_def
                py_isspace_def whitespace_def py_index_def)

lemma all_suspended_list:
  "get_sink_list (sample_world info all_suspended inputs m) =
     Inr [\<lparr>name = ''A'', state = ''SUSPENDED''\<rparr>, \<lparr>name = ''B'', state = ''SUSPENDED''\<rparr>]"
  by (simp add: get_sink_list_def sample_world_simps all_suspended_def split_on_def py_split_def
                py_isspace_def whitespace_def py_index_def)

text \<open>
  Claim C1, as stated, fails in both of its parts.  With \<open>A\<close> running and selected and
  \<open>B\<close> suspended, a scroll returns but runs \<open>swap_device\<close> (the command
  \<open>pactl set-default-sink 0\<close>); with \<open>A\<close> suspended as well, the loop has no
  exit and the handler does not return.
\<close>

theorem scroll_all_others_suspended_counterexample:
  "on_click (sample_world [] one_awake [] None) 5 (sample_self (Some True) (Some ''A''))
     = Some (None, (sample_self (Some True) (Some ''A''))
                     \<lparr>backend := update_device ((sample_backend 200)\<lparr>device := PInt 0\<rparr>),
                      commands_run := [[PStr ''pactl'', PStr ''set-default-sink'', PStr ''0'']]\<rparr>)
   \<and> on_click (sample_world [] all_suspended [] None) 5 (sample_self (Some True) (Some ''A''))
     = None"
proof -
  let ?s = "sample_self (Some True) (Some ''A'')"
  let ?w1 = "sample_world [] one_awake [] None"
  let ?w2 = "sample_world [] all_suspended [] None"
  let ?sl2 = "[\<lparr>name = ''A'', state = ''SUSPENDED''\<rparr>, \<lparr>name = ''B'', state = ''SUSPENDED''\<rparr>]"
  have sw: "swap_device ?w1 (sample_backend 200) (PInt 0) []
      = (None, update_device ((sample_backend 200)\<lparr>device := PInt 0\<rparr>),
         [[PStr ''pactl'', PStr ''set-default-sink'', PStr ''0'']])"
    by (simp add: swap_device_def set_default_device_def run_cmd_def sample_world_simps
          get_sink_inputs_def split_on_def update_device_def sample_backend_def Let_def
          str_int_def str_nat.simps digit_char_def)
  have same: "?s\<lparr>storage_sink_name := Some ''A''\<rparr> = ?s"
    by (simp add: sample_self_def config.extend_def py3status.fields_def)
  have c1: "cycle_sink ?w1 ?s [\<lparr>name = ''A'', state = ''RUNNING''\<rparr>,
              \<lparr>name = ''B'', state = ''SUSPENDED''\<rparr>]
      = Some (None, ?s\<lparr>backend := update_device ((sample_backend 200)\<lparr>device := PInt 0\<rparr>),
                        commands_run := [[PStr ''pactl'', PStr ''set-default-sink'', PStr ''0'']]\<rparr>)"
    by (simp add: cycle_sink_def sample_self_simps get_sink_index_def py_mod_def
          skip_suspended.simps py_index_def sw same Let_def)
  have "skip_suspended ?sl2 (- 1) 1 = None"
    by (rule skip_suspended_forever) simp_all
  then have c2: "cycle_sink ?w2 ?s ?sl2 = None"
    by (simp add: cycle_sink_def sample_self_simps get_sink_index_def py_mod_def Let_def)
  show ?thesis
    using c1 c2
    by (simp add: on_click_def sample_self_simps one_awake_list all_suspended_list truthy_bool_def)
qed

text \<open>
  Claim C1, amended.  In edit mode, when the selected sink is not suspended and every
  other sink is, a scroll returns, leaves the stored sink name and the edit flag as they
  were, and runs \<open>swap_device\<close> with the index of the selected sink: the first command
  is \<open>pactl set-default-<type> <index>\<close>.
\<close>

theorem scroll_only_current_awake:
  assumes b: "button \<noteq> button_left self" "button \<noteq> button_right self"
    and em: "truthy_bool (storage_edit_mode self)"
    and sc: "button = scroll_up self \<or> button = scroll_down self"
    and sl: "get_sink_list w = Inr sl"
    and gi: "get_sink_index sl (storage_sink_name self) = Inr i"
    and cur: "state (sl ! nat i) \<noteq> ''SUSPENDED''"
    and others: "\<forall>j < length sl. int j \<noteq> i \<longrightarrow> state (sl ! j) = ''SUSPENDED''"
  shows "\<exists>r self'. on_click w button self = Some (r, self')
          \<and> storage_sink_name self' = storage_sink_name self
          \<and> storage_edit_mode self' = storage_edit_mode self
          \<and> (r, backend self', commands_run self')
              = swap_device w (backend self) (PInt i) (commands_run self)
          \<and> (\<exists>more. commands_run self' = commands_run self
                @ [[PStr ''pactl'', PStr (''set-default-'' @ device_type (backend self)),
                    PStr (str_int i)]] @ more)"
proof -
  from sink_index_from_found [of 0 sl "storage_sink_name self" i] gi
  have i: "0 \<le> i" "i < int (length sl)" and nm: "Some (name (sl ! nat i)) = storage_sink_name self"
    by (simp_all add: get_sink_index_def)
  define delta :: int where "delta = (if scroll_up self \<noteq> 0 then - 1 else 1)"
  have d: "delta = 1 \<or> delta = - 1" by (simp add: delta_def)
  let ?n = "int (length sl)"
  have n: "0 < ?n" using i by linarith
  let ?ind0 = "(i + delta) mod ?n"
  have m0: "py_mod (i + delta) ?n = Inr ?ind0" using n by (simp add: py_mod_def)
  have r0: "0 \<le> ?ind0" "?ind0 < ?n" using n by simp_all
  have loop: "skip_suspended sl delta ?ind0 = Some (Inr i)"
    by (rule skip_suspended_reaches [OF i cur others d refl r0])
  have idx: "py_index sl i = Inr (sl ! nat i)" using i by (simp add: py_index_def)
  have same: "self\<lparr>storage_sink_name := Some (name (sl ! nat i))\<rparr> = self"
    using nm by simp
  obtain r b cmds where sw: "swap_device w (backend self) (PInt i) (commands_run self) = (r, b, cmds)"
    by (cases "swap_device w (backend self) (PInt i) (commands_run self)") auto
  have cy: "cycle_sink w self sl = Some (r, self\<lparr>backend := b, commands_run := cmds\<rparr>)"
    using gi m0 loop idx same sw
    by (simp add: cycle_sink_def delta_def [symmetric] Let_def)
  have oc: "on_click w button self = Some (r, self\<lparr>backend := b, commands_run := cmds\<rparr>)"
    using b em sc sl cy by (simp add: on_click_def)
  obtain more where "cmds = commands_run self
                @ [[PStr ''pactl'', PStr (''set-default-'' @ device_type (backend self)),
                    PStr (str_int i)]] @ more"
    using swap_device_log [of w "backend self" i "commands_run self"] sw by auto
  then show ?thesis using oc sw by simp
qed

theorem scroll_only_current_awake_witness:
  "\<exists>r self'. on_click (sample_world [] one_awake [] None) 5 (sample_self (Some True) (Some ''A''))
                 = Some (r, self')
      \<and> storage_sink_name self' = Some ''A''
      \<and> (\<exists>more. commands_run self' =
            [[PStr ''pactl'', PStr ''set-default-sink'', PStr ''0'']] @ more)"
proof -
  let ?w = "sample_world [] one_awake [] None"
  let ?s = "sample_self (Some True) (Some ''A'')"
  let ?sl = "[\<lparr>name = ''A'', state = ''RUNNING''\<rparr>, \<lparr>name = ''B'', state = ''SUSPENDED''\<rparr>]"
  have h1: "5 \<noteq> button_left ?s" and h2: "5 \<noteq> button_right ?s"
    and h3: "truthy_bool (storage_edit_mode ?s)"
    and h4: "5 = scroll_up ?s \<or> 5 = scroll_down ?s"
    by (simp_all add: sample_self_simps truthy_bool_def)
  have h5: "get_sink_index ?sl (storage_sink_name ?s) = Inr 0"
    by (simp add: get_sink_index_def sample_self_simps)
  have h6: "state (?sl ! nat 0) \<noteq> ''SUSPENDED''" by simp
  have h7: "\<forall>j < length ?sl. int j \<noteq> 0 \<longrightarrow> state (?sl ! j) = ''SUSPENDED''"
    by (simp add: less_Suc_eq)
  have dt: "device_type (backend ?s) = ''sink''"
    by (simp add: sample_self_simps sample_backend_def update_device_def)
  have z: "str_int 0 = ''0''"
    by (simp add: str_int_def str_nat.simps digit_char_def)
  from scroll_only_current_awake [OF h1 h2 h3 h4 one_awake_list [of "[]" "[]" None] h5 h6 h7]
  obtain r self' more where
    "on_click ?w 5 ?s = Some (r, self')"
    "storage_sink_name self' = storage_sink_name ?s"
    "commands_run self' = commands_run ?s
       @ [[PStr ''pactl'', PStr (''set-default-'' @ device_type (backend ?s)),
           PStr (str_int 0)]] @ more"
    by blast
  then show ?thesis
    unfolding dt z by (simp add: sample_self_simps)
qed

section \<open>Properties of the glyph index\<close>

subsection \<open>Powers of two and the exponent\<close>

lemma pow2_powi: "pow2 e = power_int 2 e"
  by (simp add: pow2_def power_int_def inverse_eq_divide power_one_over)

lemma pow2_pos: "0 < pow2 e"
  by (simp add: pow2_powi)

lemma pow2_add: "pow2 (a + b) = pow2 a * pow2 b"
  by (simp add: pow2_powi power_int_add)

lemma pow2_mono: "a \<le> b \<Longrightarrow> pow2 a \<le> pow2 b"
  by (simp add: pow2_powi power_int_increasing)

lemma pow2_nat: "pow2 (int n) = 2 ^ n"
  by (simp add: pow2_def)

lemma bitlen_bounds: "0 < n \<Longrightarrow> 2 ^ (bitlen n - 1) \<le> n \<and> n < 2 ^ bitlen n"
proof (induction n rule: bitlen.induct)
  case (1 n)
  show ?case
  proof (cases "n div 2 = 0")
    case True
    then have "n = 1" using 1(2) by linarith
    then show ?thesis by (simp add: bitlen.simps)
  next
    case False
    then have ih: "2 ^ (bitlen (n div 2) - 1) \<le> n div 2" "n div 2 < 2 ^ bitlen (n div 2)"
      using 1 by auto
    have bl: "bitlen n = Suc (bitlen (n div 2))" using 1(2) by (subst bitlen.simps) simp
    have pos: "0 < bitlen (n div 2)" using False by (subst bitlen.simps) simp
    then have "(2::nat) ^ (bitlen n - 1) = 2 * 2 ^ (bitlen (n div 2) - 1)"
      using bl by (cases "bitlen (n div 2)") simp_all
    moreover have "2 * (n div 2) \<le> n" "n < 2 * (n div 2) + 2" by arith+
    moreover have "(2::nat) ^ bitlen n = 2 * 2 ^ bitlen (n div 2)" using bl by simp
    ultimately show ?thesis using ih by linarith
  qed
qed

lemma bitlen_int_bounds:
  assumes "0 < (a::int)"
  shows "pow2 (int (bitlen (nat a)) - 1) \<le> of_int a" "of_int a < pow2 (int (bitlen (nat a)))"
proof -
  have n: "0 < nat a" using assms by simp
  from bitlen_bounds [OF n]
  have b: "2 ^ (bitlen (nat a) - 1) \<le> nat a" "nat a < 2 ^ bitlen (nat a)" by auto
  have pos: "0 < bitlen (nat a)" using n by (subst bitlen.simps) simp
  then have e: "int (bitlen (nat a)) - 1 = int (bitlen (nat a) - 1)" by linarith
  have "(2::rat) ^ (bitlen (nat a) - 1) \<le> of_nat (nat a)"
    using b(1) by (metis of_nat_le_iff of_nat_numeral of_nat_power)
  then show "pow2 (int (bitlen (nat a)) - 1) \<le> of_int a"
    using assms unfolding e pow2_nat by simp
  have "(of_nat (nat a) :: rat) < 2 ^ bitlen (nat a)"
    using b(2) by (metis of_nat_less_iff of_nat_numeral of_nat_power)
  then show "of_int a < pow2 (int (bitlen (nat a)))"
    using assms unfolding pow2_nat by simp
qed

lemma ilog2_test:
  assumes "0 < (a::int)" "0 < (b::int)"
  shows "(if 0 \<le> k then b * 2 ^ nat k \<le> a else b \<le> a * 2 ^ nat (- k))
           \<longleftrightarrow> pow2 k \<le> of_int a / of_int b"
proof (cases "0 \<le> k")
  case True
  have "(b * 2 ^ nat k \<le> a) \<longleftrightarrow> ((of_int (b * 2 ^ nat k) :: rat) \<le> of_int a)"
    by (simp only: of_int_le_iff)
  also have "\<dots> \<longleftrightarrow> (pow2 k * of_int b \<le> (of_int a :: rat))"
    using True by (simp add: pow2_def mult.commute)
  also have "\<dots> \<longleftrightarrow> pow2 k \<le> of_int a / of_int b"
    using assms by (simp add: pos_le_divide_eq)
  finally show ?thesis using True by simp
next
  case False
  have "(b \<le> a * 2 ^ nat (- k)) \<longleftrightarrow> ((of_int b :: rat) \<le> of_int (a * 2 ^ nat (- k)))"
    by (simp only: of_int_le_iff)
  also have "\<dots> \<longleftrightarrow> (pow2 k * of_int b \<le> (of_int a :: rat))"
    using False by (simp add: pow2_def field_simps)
  also have "\<dots> \<longleftrightarrow> pow2 k \<le> of_int a / of_int b"
    using assms by (simp add: pos_le_divide_eq)
  finally show ?thesis using False by simp
qed

lemma ilog2_bounds:
  assumes "0 < (a::int)" "0 < (b::int)"
  shows "pow2 (ilog2 a b) \<le> of_int a / of_int b"
    and "of_int a / of_int b < pow2 (ilog2 a b + 1)"
proof -
  define la where "la = int (bitlen (nat a))"
  define lb where "lb = int (bitlen (nat b))"
  define k where "k = la - lb"
  let ?q = "of_int a / of_int b :: rat"
  have A: "pow2 (la - 1) \<le> of_int a" "of_int a < pow2 la"
    using bitlen_int_bounds [OF assms(1)] by (simp_all add: la_def)
  have B: "pow2 (lb - 1) \<le> of_int b" "of_int b < pow2 lb"
    using bitlen_int_bounds [OF assms(2)] by (simp_all add: lb_def)
  have bpos: "(0::rat) < of_int b" using assms by simp
  have "of_int a < pow2 (k + 1) * pow2 (lb - 1)"
    using A(2) by (simp add: k_def pow2_add [symmetric])
  also have "\<dots> \<le> pow2 (k + 1) * of_int b"
    using B(1) pow2_pos [of "k + 1"] by simp
  finally have up: "?q < pow2 (k + 1)"
    using bpos by (simp add: pos_divide_less_eq)
  have "pow2 (k - 1) * of_int b < pow2 (k - 1) * pow2 lb"
    using B(2) pow2_pos [of "k - 1"] by simp
  also have "\<dots> = pow2 (la - 1)"
    by (simp add: k_def pow2_add [symmetric])
  also have "\<dots> \<le> of_int a" by (rule A(1))
  finally have lo: "pow2 (k - 1) \<le> ?q"
    using bpos by (simp add: pos_le_divide_eq)
  have il: "ilog2 a b = (if pow2 k \<le> ?q then k else k - 1)"
    unfolding ilog2_def Let_def la_def [symmetric] lb_def [symmetric] k_def [symmetric]
    using ilog2_test [OF assms, of k] by simp
  show "pow2 (ilog2 a b) \<le> ?q" using il lo by simp
  show "?q < pow2 (ilog2 a b + 1)" using il up by (simp split: if_splits)
qed

lemma round_half_even_near:
  assumes "0 < (b::int)"
  shows "\<bar>of_int (round_half_even a b) - of_int a / of_int b\<bar> \<le> (1 / 2 :: rat)"
proof -
  define q where "q = a div b"
  define r where "r = a mod b"
  have r: "0 \<le> r" "r < b" using assms by (simp_all add: r_def)
  have "a = q * b + r" by (simp add: q_def r_def)
  then have "(of_int a :: rat) = of_int q * of_int b + of_int r"
    by (metis of_int_add of_int_mult)
  then have ab: "(of_int a / of_int b :: rat) = of_int q + of_int r / of_int b"
    using assms by (simp add: field_simps)
  have bpos: "(0::rat) < of_int b" using assms by simp
  have rb: "(0::rat) \<le> of_int r / of_int b" using r assms by simp
  have h1: "2 * r < b \<Longrightarrow> (of_int r / of_int b :: rat) \<le> 1 / 2"
  proof -
    assume "2 * r < b"
    then have "(of_int (2 * r) :: rat) \<le> of_int b" by (simp only: of_int_le_iff)
    then show ?thesis using bpos by (simp add: field_simps)
  qed
  have h2: "b \<le> 2 * r \<Longrightarrow> (1 / 2 :: rat) \<le> of_int r / of_int b"
  proof -
    assume "b \<le> 2 * r"
    then have "(of_int b :: rat) \<le> of_int (2 * r)" by (simp only: of_int_le_iff)
    then show ?thesis using bpos by (simp add: field_simps)
  qed
  have h3: "(of_int r / of_int b :: rat) \<le> 1"
    using r bpos by (simp add: field_simps)
  have rhe: "round_half_even a b =
      (if 2 * r < b then q else if b < 2 * r then q + 1 else if even q then q else q + 1)"
    by (simp add: round_half_even_def q_def r_def Let_def)
  consider "2 * r < b" | "b < 2 * r" | "2 * r = b" by linarith
  then show ?thesis
  proof cases
    case 1
    then show ?thesis using h1 rb by (simp add: rhe ab)
  next
    case 2
    then show ?thesis using h2 h3 by (simp add: rhe ab)
  next
    case 3
    then have "(of_int b :: rat) = of_int (2 * r)" by simp
    then have half: "(of_int r / of_int b :: rat) = 1 / 2"
      using bpos by (simp add: field_simps)
    have "round_half_even a b = q \<or> round_half_even a b = q + 1"
      using 3 by (simp add: rhe)
    then show ?thesis unfolding ab half by auto
  qed
qed

lemma round_half_even_exact:
  assumes "0 < (b::int)" and "b dvd a"
  shows "round_half_even a b = a div b"
  using assms by (simp add: round_half_even_def Let_def)

subsection \<open>The error of one rounding\<close>

lemma fl_pos:
  assumes "0 < (a::int)" "0 < (b::int)"
  shows "snd (fl a b) = ilog2 a b - 52"
    and "\<bar>of_int (fst (fl a b)) - (of_int a / of_int b) / pow2 (ilog2 a b - 52)\<bar> \<le> (1 / 2 :: rat)"
proof -
  define e where "e = ilog2 a b - 52"
  define m where "m = (if 0 \<le> e then round_half_even a (b * 2 ^ nat e)
                       else round_half_even (a * 2 ^ nat (- e)) b)"
  have f: "fl a b = (m, e)"
    using assms by (simp add: fl_def Let_def m_def e_def)
  show "snd (fl a b) = ilog2 a b - 52" by (simp add: f e_def)
  have "\<bar>of_int m - (of_int a / of_int b) / pow2 e\<bar> \<le> (1 / 2 :: rat)"
  proof (cases "0 \<le> e")
    case True
    have pos: "0 < b * 2 ^ nat e" using assms by simp
    have eq: "(of_int a / of_int b) / pow2 e = (of_int a / of_int (b * 2 ^ nat e) :: rat)"
      using True by (simp add: pow2_def)
    have mm: "m = round_half_even a (b * 2 ^ nat e)" using True by (simp add: m_def)
    show ?thesis unfolding eq mm by (rule round_half_even_near [OF pos])
  next
    case False
    have eq: "(of_int a / of_int b) / pow2 e = (of_int (a * 2 ^ nat (- e)) / of_int b :: rat)"
      using False by (simp add: pow2_def)
    have mm: "m = round_half_even (a * 2 ^ nat (- e)) b" using False by (simp add: m_def)
    show ?thesis unfolding eq mm by (rule round_half_even_near [OF assms(2)])
  qed
  then show "\<bar>of_int (fst (fl a b)) - (of_int a / of_int b) / pow2 (ilog2 a b - 52)\<bar> \<le> (1 / 2 :: rat)"
    by (simp add: f e_def)
qed

lemma fl_error:
  assumes "0 < (a::int)" "0 < (b::int)"
  shows "\<bar>dval (fl a b) - of_int a / of_int b\<bar> \<le> (of_int a / of_int b) / 2 ^ 53"
proof -
  define e where "e = ilog2 a b - 52"
  define q :: rat where "q = of_int a / of_int b"
  define m :: rat where "m = of_int (fst (fl a b))"
  have pe: "0 < pow2 e" by (rule pow2_pos)
  have near: "\<bar>m - q / pow2 e\<bar> \<le> 1 / 2"
    using fl_pos(2) [OF assms] by (simp add: m_def q_def e_def)
  have dv: "dval (fl a b) = m * pow2 e"
    using fl_pos(1) [OF assms] by (simp add: dval_def m_def e_def)
  have "m * pow2 e - q = (m - q / pow2 e) * pow2 e"
    using pe by (simp add: field_simps)
  then have "\<bar>m * pow2 e - q\<bar> = \<bar>m - q / pow2 e\<bar> * pow2 e"
    using pe by (simp add: abs_mult)
  also have "\<dots> \<le> 1 / 2 * pow2 e"
    using near pe by (simp add: mult_right_mono)
  finally have 1: "\<bar>dval (fl a b) - q\<bar> \<le> pow2 e / 2" by (simp add: dv)
  have "pow2 (e + 52) \<le> q"
    using ilog2_bounds(1) [OF assms] by (simp add: e_def q_def)
  moreover have "pow2 52 = 2 ^ 52" by (simp add: pow2_def)
  ultimately have "pow2 e * 2 ^ 52 \<le> q"
    by (simp only: pow2_add)
  then have "pow2 e / 2 \<le> q / 2 ^ 53" by (simp add: field_simps)
  then show ?thesis using 1 by (simp add: q_def)
qed

lemma int_near:
  assumes "\<bar>of_int x - (of_int y :: rat)\<bar> \<le> 1 / 2"
  shows "x = y"
proof -
  have "\<bar>(of_int (x - y) :: rat)\<bar> < 1" using assms by simp
  then have "\<bar>x - y\<bar> < 1" by (metis of_int_abs of_int_less_1_iff)
  then show ?thesis by simp
qed

lemma pow2_less_imp: "pow2 a < pow2 b \<Longrightarrow> a < b"
  using pow2_mono [of b a] by (cases "a < b") auto

lemma fl_exact:
  assumes "0 < (a::int)" "0 < (b::int)"
    and rep: "(of_int a / of_int b :: rat) = of_int m * pow2 j" and m: "m < 2 ^ 53"
  shows "dval (fl a b) = of_int a / of_int b"
proof -
  define e where "e = ilog2 a b - 52"
  define q :: rat where "q = of_int a / of_int b"
  have lo: "pow2 (e + 52) \<le> q"
    using ilog2_bounds(1) [OF assms(1,2)] by (simp add: e_def q_def)
  have "(of_int m :: rat) < 2 ^ 53" using m by (metis of_int_less_iff of_int_numeral of_int_power)
  then have "of_int m * pow2 j < 2 ^ 53 * pow2 j"
    using pow2_pos [of j] by simp
  also have "\<dots> = pow2 53 * pow2 j" by (simp add: pow2_def)
  also have "\<dots> = pow2 (j + 53)" by (simp only: pow2_add mult.commute)
  finally have "q < pow2 (j + 53)" by (simp add: q_def rep)
  then have "pow2 (e + 52) < pow2 (j + 53)" using lo by simp
  then have ej: "e \<le> j" using pow2_less_imp by fastforce
  have "pow2 j = pow2 (j - e) * pow2 e" by (simp add: pow2_add [symmetric])
  moreover have "pow2 (j - e) = of_int (2 ^ nat (j - e))" using ej by (simp add: pow2_def)
  ultimately have qe: "q / pow2 e = of_int (m * 2 ^ nat (j - e))"
    using pow2_pos [of e] by (simp add: q_def rep)
  have "\<bar>of_int (fst (fl a b)) - q / pow2 e\<bar> \<le> (1 / 2 :: rat)"
    using fl_pos(2) [OF assms(1,2)] by (simp add: q_def e_def)
  then have fm: "fst (fl a b) = m * 2 ^ nat (j - e)"
    unfolding qe by (rule int_near)
  have sn: "snd (fl a b) = e"
    using fl_pos(1) [OF assms(1,2)] by (simp add: e_def)
  have "dval (fl a b) = of_int (m * 2 ^ nat (j - e)) * pow2 e"
    by (simp only: dval_def fm sn)
  also have "\<dots> = (q / pow2 e) * pow2 e" by (simp only: qe)
  also have "\<dots> = q" using pow2_pos [of e] by simp
  finally show ?thesis by (simp only: q_def)
qed

lemma fl_fst_pos:
  assumes "0 < (a::int)" "0 < (b::int)"
  shows "0 < fst (fl a b)"
proof -
  define e where "e = ilog2 a b - 52"
  define q :: rat where "q = of_int a / of_int b"
  have "pow2 (e + 52) \<le> q"
    using ilog2_bounds(1) [OF assms] by (simp add: e_def q_def)
  moreover have "pow2 52 = 2 ^ 52" by (simp add: pow2_def)
  ultimately have "pow2 e * 2 ^ 52 \<le> q" by (simp only: pow2_add)
  then have "2 ^ 52 \<le> q / pow2 e" using pow2_pos [of e] by (simp add: field_simps)
  moreover have "\<bar>of_int (fst (fl a b)) - q / pow2 e\<bar> \<le> (1 / 2 :: rat)"
    using fl_pos(2) [OF assms] by (simp add: q_def e_def)
  moreover have "(1::rat) \<le> 2 ^ 52" by simp
  ultimately have "(0::rat) < of_int (fst (fl a b))" by linarith
  then show ?thesis by simp
qed

lemma dval_dmul:
  "dval (dmul x y) = dval (fl (fst x * fst y) 1) * pow2 (snd x + snd y)"
  by (cases "fl (fst x * fst y) 1") (simp add: dmul_def dval_def pow2_add add.assoc)

lemma dval_mult: "dval x * dval y = of_int (fst x * fst y) * pow2 (snd x + snd y)"
  by (simp add: dval_def pow2_add)

lemma dceil_eq: "dceil d = \<lceil>dval d\<rceil>"
proof (cases "0 \<le> snd d")
  case True
  then have "dval d = of_int (fst d * 2 ^ nat (snd d))" by (simp add: dval_def pow2_def)
  then show ?thesis using True by (simp add: dceil_def del: of_int_mult)
next
  case False
  then have "dval d = of_int (fst d) / of_int (2 ^ nat (- snd d))"
    by (simp add: dval_def pow2_def)
  then have "\<lceil>dval d\<rceil> = - ((- fst d) div 2 ^ nat (- snd d))"
    unfolding ceiling_def
    by (metis floor_divide_of_int_eq minus_divide_left of_int_minus)
  then show ?thesis using False by (simp add: dceil_def)
qed

subsection \<open>The index against the exact formula\<close>

lemma fl_zero: "fl 0 b = (0, 0)"
  by (simp add: fl_def)

lemma dval_dmul_zero:
  assumes "fst x * fst y = 0"
  shows "dval (dmul x y) = 0"
proof -
  have "dval (dmul x y) = dval (fl 0 1) * pow2 (snd x + snd y)"
    using assms by (simp only: dval_dmul)
  then show ?thesis by (simp add: fl_zero dval_def)
qed

lemma ceiling_hundredths:
  assumes "\<not> 100 dvd (t::int)" and "\<bar>z - of_int t / 100\<bar> < (1 / 100 :: rat)"
  shows "\<lceil>z\<rceil> = \<lceil>(of_int t / 100 :: rat)\<rceil>"
proof -
  define c where "c = t div 100 + 1"
  define r where "r = t mod 100"
  have r: "1 \<le> r" "r \<le> 99" using assms(1) by (simp_all add: r_def) presburger+
  have "t = (c - 1) * 100 + r" by (simp add: c_def r_def)
  then have "(of_int t :: rat) = of_int (c - 1) * 100 + of_int r"
    by (metis of_int_add of_int_mult of_int_numeral)
  then have v: "(of_int t / 100 :: rat) = of_int c - 1 + of_int r / 100" by simp
  define w :: rat where "w = of_int r / 100"
  have r1: "(1::rat) \<le> of_int r" "(of_int r :: rat) \<le> 99" using r by simp_all
  then have w: "1 / 100 \<le> w" "w \<le> 99 / 100" by (simp_all add: w_def)
  have v': "(of_int t / 100 :: rat) = of_int c - 1 + w" by (simp add: v w_def)
  have "of_int c - 1 < (of_int t / 100 :: rat)" "(of_int t / 100 :: rat) \<le> of_int c"
    using w unfolding v' by linarith+
  then have cv: "\<lceil>(of_int t / 100 :: rat)\<rceil> = c" by (rule ceiling_unique)
  have "z - (of_int c - 1 + w) < 1 / 100" "(of_int c - 1 + w) - z < 1 / 100"
    using assms(2) unfolding v' by linarith+
  then have "of_int c - 1 < z" "z \<le> of_int c"
    using w by linarith+
  then have "\<lceil>z\<rceil> = c" by (rule ceiling_unique)
  then show ?thesis using cv by simp
qed

lemma dmul_exact_quarters:
  assumes p: "0 < p" "p \<le> 999" "25 dvd p" and n: "0 < n" "n < 2 ^ 32"
  shows "dval (dmul (fl p 100) (fl n 1)) = (of_int p / 100 * of_int n :: rat)"
proof -
  define X where "X = fl p 100"
  define Y where "Y = fl n 1"
  define s where "s = snd X + snd Y"
  define P where "P = fst X * fst Y"
  obtain k where k: "p = 25 * k" using p(3) by (auto simp: dvd_def)
  then have kb: "0 < k" "k \<le> 39" using p by linarith+
  have p4: "pow2 (- 2) = 1 / 4" by (simp add: pow2_def)
  have "(of_int p / of_int 100 :: rat) = of_int k * pow2 (- 2)"
    by (simp add: k p4)
  moreover have "k < 2 ^ 53" using kb by simp
  ultimately have x: "dval X = of_int p / 100"
    using fl_exact [of p 100 k "- 2"] p(1) by (simp add: X_def)
  have "(of_int n / of_int 1 :: rat) = of_int n * pow2 0" by (simp add: pow2_def)
  moreover have "n < 2 ^ 53" using n by simp
  ultimately have y: "dval Y = of_int n"
    using fl_exact [of n 1 n 0] n(1) by (simp add: Y_def)
  have Ppos: "0 < P"
    using fl_fst_pos [of p 100] fl_fst_pos [of n 1] p(1) n(1)
    by (simp add: P_def X_def Y_def)
  have xy: "of_int P * pow2 s = (of_int p / 100 * of_int n :: rat)"
    using dval_mult [of X Y] by (simp add: x y P_def s_def)
  have "pow2 (s + - s) = (1::rat)" by (simp add: pow2_def)
  then have inv: "pow2 s * pow2 (- s) = 1" by (simp only: pow2_add)
  have "(of_int P :: rat) = of_int P * (pow2 s * pow2 (- s))" by (simp only: inv mult_1_right)
  also have "\<dots> = (of_int P * pow2 s) * pow2 (- s)" by (simp only: mult.assoc)
  also have "\<dots> = (of_int p / 100 * of_int n :: rat) * pow2 (- s)" by (simp only: xy)
  also have "\<dots> = of_int (k * n) * (pow2 (- 2) * pow2 (- s))"
    by (simp add: k p4)
  also have "\<dots> = of_int (k * n) * pow2 (- 2 - s)"
    by (simp add: pow2_add [symmetric])
  finally have rep: "(of_int P / of_int 1 :: rat) = of_int (k * n) * pow2 (- 2 - s)" by simp
  have kn: "k * n \<le> 39 * n" using kb n by simp
  have "39 * n < 2 ^ 53" using n by simp
  with kn have "k * n < 2 ^ 53" by linarith
  then have "dval (fl P 1) = of_int P"
    using fl_exact [OF Ppos _ rep] by simp
  then have "dval (dmul X Y) = of_int P * pow2 s"
    by (simp add: dval_dmul P_def s_def)
  then show ?thesis by (simp add: xy X_def Y_def)
qed

lemma dmul_near:
  assumes p: "0 < p" "p \<le> 999" and n: "0 < n" "n < 2 ^ 32"
  shows "\<bar>dval (dmul (fl p 100) (fl n 1)) - of_int p / 100 * of_int n\<bar> < (1 / 100 :: rat)"
proof -
  define X where "X = fl p 100"
  define Y where "Y = fl n 1"
  define s where "s = snd X + snd Y"
  define P where "P = fst X * fst Y"
  define v :: rat where "v = of_int p / 100 * of_int n"
  define xy :: rat where "xy = dval X * dval Y"
  define z :: rat where "z = dval (dmul X Y)"
  define u :: rat where "u = 1 / 2 ^ 53"
  have np: "(0::rat) < of_int n" using n by simp
  have vpos: "0 < v" using p n by (simp add: v_def)
  have "(of_int n / of_int 1 :: rat) = of_int n * pow2 0" by (simp add: pow2_def)
  moreover have "n < 2 ^ 53" using n by simp
  ultimately have y: "dval Y = of_int n"
    using fl_exact [of n 1 n 0] n(1) by (simp add: Y_def)
  have "\<bar>dval X - of_int p / 100\<bar> \<le> (of_int p / 100) * u"
    using fl_error [of p 100] p(1) by (simp add: X_def u_def)
  then have "\<bar>dval X - of_int p / 100\<bar> * of_int n \<le> (of_int p / 100) * u * of_int n"
    using np by (simp add: mult_right_mono)
  moreover have "xy - v = (dval X - of_int p / 100) * of_int n"
    by (simp add: xy_def v_def y algebra_simps)
  ultimately have e1: "\<bar>xy - v\<bar> \<le> v * u"
    using np by (simp add: abs_mult v_def mult.commute mult.left_commute)
  have Ppos: "0 < P"
    using fl_fst_pos [of p 100] fl_fst_pos [of n 1] p(1) n(1)
    by (simp add: P_def X_def Y_def)
  have xyP: "xy = of_int P * pow2 s"
    using dval_mult [of X Y] by (simp add: xy_def P_def s_def)
  have zP: "z = dval (fl P 1) * pow2 s"
    by (simp add: z_def dval_dmul P_def s_def)
  have "\<bar>dval (fl P 1) - of_int P\<bar> \<le> of_int P * u"
    using fl_error [OF Ppos, of 1] by (simp add: u_def)
  then have "\<bar>dval (fl P 1) - of_int P\<bar> * pow2 s \<le> of_int P * u * pow2 s"
    using pow2_pos [of s] by (simp add: mult_right_mono)
  moreover have "z - xy = (dval (fl P 1) - of_int P) * pow2 s"
    by (simp add: zP xyP algebra_simps)
  ultimately have e2: "\<bar>z - xy\<bar> \<le> xy * u"
    using pow2_pos [of s] by (simp add: abs_mult xyP mult.commute mult.left_commute)
  have upos: "0 < u" "u \<le> 1" by (simp_all add: u_def)
  have "v * u \<le> v" using vpos upos by simp
  then have "xy \<le> 2 * v" using e1 by linarith
  then have "xy * u \<le> 2 * v * u" using upos by simp
  then have zv: "\<bar>z - v\<bar> \<le> 3 * v * u" using e1 e2 by linarith
  have vb: "v \<le> 999 / 100 * 2 ^ 32"
  proof -
    have "(of_int p :: rat) \<le> 999" using p by simp
    moreover have "(of_int n :: rat) \<le> 2 ^ 32"
      using n by (metis less_imp_le of_int_le_iff of_int_numeral of_int_power)
    ultimately have "(of_int p :: rat) * of_int n \<le> 999 * 2 ^ 32"
      using np by (intro mult_mono) simp_all
    then show ?thesis by (simp add: v_def mult.commute)
  qed
  have "v * (3 * u) \<le> (999 / 100 * 2 ^ 32) * (3 * u)"
    using vb upos by (intro mult_right_mono) simp_all
  then have "3 * v * u \<le> 3 * (999 / 100 * 2 ^ 32) * u"
    by (simp only: mult.commute mult.left_commute mult.assoc)
  with zv have "\<bar>z - v\<bar> \<le> 3 * (999 / 100 * 2 ^ 32) * u" by linarith
  also have "\<dots> < 1 / 100" by (simp add: u_def)
  finally show ?thesis by (simp add: z_def v_def X_def Y_def)
qed

lemma volume_status_icon:
  assumes "get_volume w (backend self) = Inr (Some s, Some False)" and "py_int s = Inr p"
  shows "volume_status w self =
           (case py_index (blocks self) (icon_index p (int (length (blocks self)))) of
              Inl e \<Rightarrow> Inl e
            | Inr g \<Rightarrow> Inr (render self (format self) (Some g) s (Some ''#FFFFFF'')))"
  using assms by (simp add: volume_status_def truthy_bool_def)

text \<open>
  Claim C6, as stated, fails: the index is computed in double precision.  For a ramp of 26
  glyphs and 28 percent, \<open>28 / 100 * 25\<close> is the double just above 7, whose ceiling
  is 8, while the exact formula gives 7.
\<close>

theorem icon_index_rounding_counterexample:
  "icon_index 28 26 = 8
   \<and> min (26 - 1) \<lceil>(of_int 28 / 100 * of_int (26 - 1) :: rat)\<rceil> = (7::int)"
  by (simp add: icon_index_def dceil_def dmul_def fl_def ilog2_def round_half_even_def
        bitlen.simps Let_def)

text \<open>
  Claim C6, amended.  For a percentage of at most three digits and a ramp of 1 to
  \<open>2^32\<close> glyphs, the index is \<open>min(L-1, ceil(p/100*(L-1)))\<close> whenever
  \<open>p * (L-1)\<close> is not a multiple of 100 or \<open>p\<close> is a multiple of 25; for 9 glyphs
  and 95 percent it is 8.
\<close>

theorem icon_index_exact:
  assumes p: "0 \<le> p" "p \<le> 999" and L: "1 \<le> L" "L \<le> 2 ^ 32"
    and c: "\<not> 100 dvd p * (L - 1) \<or> 25 dvd p"
  shows "icon_index p L = min (L - 1) \<lceil>(of_int p / 100 * of_int (L - 1) :: rat)\<rceil>"
proof -
  define n where "n = L - 1"
  have n: "0 \<le> n" "n < 2 ^ 32" using L by (simp_all add: n_def)
  define z :: rat where "z = dval (dmul (fl p 100) (fl n 1))"
  define v :: rat where "v = of_int p / 100 * of_int n"
  have ii: "icon_index p L = min n \<lceil>z\<rceil>"
    by (simp add: icon_index_def dceil_eq z_def n_def)
  have "\<lceil>z\<rceil> = \<lceil>v\<rceil>"
  proof (cases "p = 0 \<or> n = 0")
    case True
    then have "fst (fl p 100) * fst (fl n 1) = 0" by (auto simp: fl_zero)
    then have "z = 0" unfolding z_def by (rule dval_dmul_zero)
    moreover have "v = 0" using True by (auto simp: v_def)
    ultimately show ?thesis by simp
  next
    case False
    then have pn: "0 < p" "0 < n" using p n by linarith+
    show ?thesis
    proof (cases "25 dvd p")
      case True
      then have "z = v"
        unfolding z_def v_def by (rule dmul_exact_quarters [OF pn(1) p(2) _ pn(2) n(2)])
      then show ?thesis by simp
    next
      case False
      then have nd: "\<not> 100 dvd p * n" using c by (simp add: n_def)
      have near: "\<bar>z - v\<bar> < 1 / 100"
        unfolding z_def v_def by (rule dmul_near [OF pn(1) p(2) pn(2) n(2)])
      have vt: "v = of_int (p * n) / 100" by (simp add: v_def)
      show ?thesis
        using near unfolding vt by (rule ceiling_hundredths [OF nd])
    qed
  qed
  then show ?thesis by (simp add: ii v_def n_def)
qed

theorem icon_index_exact_witness:
  "icon_index 95 9 = 8 \<and> icon_index 50 9 = 4"
proof -
  have c1: "\<lceil>(of_int 95 / 100 * of_int (9 - 1) :: rat)\<rceil> = 8"
    by (rule ceiling_unique) simp_all
  have c2: "\<lceil>(of_int 50 / 100 * of_int (9 - 1) :: rat)\<rceil> = 4"
    by (rule ceiling_unique) simp_all
  show ?thesis
    using icon_index_exact [of 95 9] icon_index_exact [of 50 9] c1 c2 by simp
qed

end
